theory Spec2Isabelle
  imports Complex_Main "HOL-Library.AList" "HOL-Library.Sublist"
begin

section \<open>Python values used by \<open>pymc/func_utils.py\<close>\<close>

text \<open>
  The module has one function, \<open>find_optim_prior\<close>. Its floats are modelled as reals
  (so \<open>exp\<close> is the real exponential and a dtype cast is the identity), its exceptions
  as values of \<open>exn\<close>, its dictionaries as insertion-ordered association lists held
  in a store of objects, and its calls into collaborators (the distribution family,
  the differentiation engine, the least-squares solver, the warning channel) as
  events appended to a trace.
\<close>

datatype exn_class =
    AssertionError | NotImplementedError | AttributeError | ValueError
  | TypeError | IndexError | UnusedInputError

datatype exn = Exn (cls: exn_class) (msg: string)

type_synonym 'v dict = "(string \<times> 'v) list"

definition dict_keys :: "'v dict \<Rightarrow> string list" where
  "dict_keys d = map fst d"

definition dict_values :: "'v dict \<Rightarrow> 'v list" where
  "dict_values d = map snd d"

text \<open>\<open>d[k] = v\<close> keeps the position of a key already present and appends a new one;
  this is \<open>AList.update\<close>. \<open>d.update(e)\<close> stores the items of \<open>e\<close> in order, and a
  dictionary comprehension stores its pairs in order into an empty dictionary.\<close>

definition dict_update :: "'v dict \<Rightarrow> 'v dict \<Rightarrow> 'v dict" where
  "dict_update d e = fold (\<lambda>(k, v). AList.update k v) e d"

definition dict_comp :: "(string \<times> 'v) list \<Rightarrow> 'v dict" where
  "dict_comp kvs = fold (\<lambda>(k, v). AList.update k v) kvs []"

section \<open>Symbolic expressions over \<open>dist_params\<close>\<close>

text \<open>A keyword argument of \<open>pm_dist.dist\<close> is either the component \<open>dist_params[i]\<close>
  of the symbolic input vector or a constant. A graph is a symbolic scalar expression
  over \<open>dist_params\<close>: the log-CDF of a distribution built from keyword arguments, an
  exponential, a difference or a constant. A compiled function takes the input vector
  to a value; evaluating at a vector that is too short raises IndexError.\<close>

datatype sym = Subtensor nat | Constant real

datatype graph =
    G_logcdf "(string \<rightharpoonup> real) \<Rightarrow> real" "(string \<times> sym) list"
  | G_exp graph
  | G_sub graph graph
  | G_const real

type_synonym compiled = "real list \<Rightarrow> exn + real"

fun is_Subtensor :: "sym \<Rightarrow> bool" where
  "is_Subtensor (Subtensor i) = True"
| "is_Subtensor (Constant c) = False"

fun eval_sym :: "real list \<Rightarrow> sym \<Rightarrow> exn + real" where
  "eval_sym x (Subtensor i) =
     (if i < length x then Inr (x ! i) else Inl (Exn IndexError ''index out of bounds''))"
| "eval_sym x (Constant c) = Inr c"

fun eval_kwargs :: "real list \<Rightarrow> sym dict \<Rightarrow> exn + real dict" where
  "eval_kwargs x [] = Inr []"
| "eval_kwargs x ((k, s) # kws) =
     (case eval_sym x s of
        Inl e \<Rightarrow> Inl e
      | Inr v \<Rightarrow> (case eval_kwargs x kws of Inl e \<Rightarrow> Inl e | Inr r \<Rightarrow> Inr ((k, v) # r)))"

fun graph_eval :: "graph \<Rightarrow> compiled" where
  "graph_eval (G_logcdf g dist') x =
     (case eval_kwargs x dist' of Inl e \<Rightarrow> Inl e | Inr kw \<Rightarrow> Inr (g (map_of kw)))"
| "graph_eval (G_exp a) x =
     (case graph_eval a x of Inl e \<Rightarrow> Inl e | Inr v \<Rightarrow> Inr (exp v))"
| "graph_eval (G_sub a b) x =
     (case graph_eval a x of
        Inl e \<Rightarrow> Inl e
      | Inr u \<Rightarrow> (case graph_eval b x of Inl e \<Rightarrow> Inl e | Inr v \<Rightarrow> Inr (u - v)))"
| "graph_eval (G_const c) x = Inr c"

text \<open>Whether the input variable \<open>dist_params\<close> occurs in a graph.\<close>

fun has_input :: "graph \<Rightarrow> bool" where
  "has_input (G_logcdf g dist') = (\<exists>s \<in> set (map snd dist'). is_Subtensor s)"
| "has_input (G_exp a) = has_input a"
| "has_input (G_sub a b) = (has_input a \<or> has_input b)"
| "has_input (G_const c) = False"

text \<open>\<open>aesara.function([dist_params], g)\<close> with its default \<open>on_unused_input\<close>: it
  raises UnusedInputError when \<open>dist_params\<close> is not part of the graph, and gives the
  function that evaluates the graph otherwise.\<close>

definition msg_unused_input :: string where
  "msg_unused_input = ''dist_params is not part of the computational graph''"

definition aesara_function :: "graph \<Rightarrow> exn + compiled" where
  "aesara_function g =
     (if has_input g then Inr (graph_eval g) else Inl (Exn UnusedInputError msg_unused_input))"

section \<open>Collaborators\<close>

text \<open>A distribution family \<open>pm_dist\<close>: its \<open>str\<close>, the \<open>ndims_params\<close> of its
  \<open>rv_op\<close>, and its log-CDF. Building the log-CDF at a point either raises or gives
  the log-CDF value as a function of the keyword arguments, which are bound by name.
  Modelled from the spec: the constructor \<open>pm_dist.dist\<close> (pymc, not in this module)
  takes a parameter assignment to a distribution instance; the instance is the
  dictionary of its keyword arguments.\<close>

record distribution =
  str :: string
  ndims_params :: "int list"
  logcdf :: "real \<Rightarrow> exn + ((string \<rightharpoonup> real) \<Rightarrow> real)"

text \<open>Modelled from the spec: \<open>pm.floatX\<close> (pymc, not in this module), the cast of a
  bound to the configured float type. The spec evaluates the log-CDF at the bound
  itself, and the floats are the reals here, so the cast is the identity.\<close>

definition floatX :: "real \<Rightarrow> real" where
  "floatX v = v"

text \<open>\<open>pm.logcdf(dist_, value)\<close>, for \<open>dist_ = pm_dist.dist(**kwargs)\<close> (written
  \<open>dist'\<close> here): the log-CDF graph of the family at the point, over the keyword
  arguments given, all of which are part of the graph.\<close>

definition pm_logcdf :: "distribution \<Rightarrow> sym dict \<Rightarrow> real \<Rightarrow> exn + graph" where
  "pm_logcdf pm_dist dist' v =
     (case logcdf pm_dist v of
        Inl e \<Rightarrow> Inl e
      | Inr g \<Rightarrow> Inr (G_logcdf g dist'))"

datatype jac = Jac_fn "real list \<Rightarrow> exn + real list" | Jac_str string

record opt_result =
  opt_x :: "real list"
  opt_success :: bool

text \<open>The differentiation engine (\<open>pm.gradient\<close> followed by compilation) and the
  solver (\<open>scipy.optimize.least_squares\<close>) are parameters: either may raise.\<close>

record env =
  pm_gradient :: "graph \<Rightarrow> exn + (real list \<Rightarrow> exn + real list)"
  least_squares :: "compiled \<Rightarrow> real list \<Rightarrow> jac \<Rightarrow> exn + opt_result"

section \<open>Store and trace\<close>

text \<open>The caller's dictionaries are objects in a store, passed by address. The
  collaborators are never handed one of them (\<open>**params\<close> and \<open>list(...)\<close> copy), so
  only \<open>find_optim_prior\<close> itself writes to the store: it allocates the dictionary
  \<open>opt_params\<close> and updates it in place. The dictionary \<open>params_to_optim\<close> holds
  symbolic values and never leaves the function; it is a local value. Every call to a
  collaborator and every warning is an event of the trace.\<close>

datatype event =
    Dist_call "sym dict"
  | Logcdf_call real
  | Function_call
  | Gradient_call
  | Least_squares_call compiled "real list" jac
  | Warn real real real real

type_synonym addr = nat

record state =
  heap :: "addr \<Rightarrow> real dict"
  next_addr :: addr
  trace :: "event list"

definition emit :: "event \<Rightarrow> state \<Rightarrow> state" where
  "emit e s = s\<lparr>trace := trace s @ [e]\<rparr>"

definition new_dict :: "real dict \<Rightarrow> state \<Rightarrow> addr \<times> state" where
  "new_dict d s =
     (next_addr s, s\<lparr>heap := (heap s)(next_addr s := d), next_addr := Suc (next_addr s)\<rparr>)"

definition update_at :: "addr \<Rightarrow> addr \<Rightarrow> state \<Rightarrow> state" where
  "update_at a b s = s\<lparr>heap := (heap s)(a := dict_update (heap s a) (heap s b))\<rparr>"

fun is_solver_call :: "event \<Rightarrow> bool" where
  "is_solver_call (Least_squares_call f x0 j) = True"
| "is_solver_call _ = False"

fun is_warning :: "event \<Rightarrow> bool" where
  "is_warning (Warn a l u m) = True"
| "is_warning _ = False"

section \<open>\<open>find_optim_prior\<close>\<close>

definition msg_non_scalar :: string where
  "msg_non_scalar =
     ''`pm.find_optim_prior` does not work with non-scalar parameters yet.\<newline>'' @
     ''Feel free to open a pull request on PyMC repo if you really need this feature.''"

definition msg_no_logcdf :: "distribution \<Rightarrow> string" where
  "msg_no_logcdf pm_dist =
     ''You cannot use `find_optim_prior` with '' @ str pm_dist @
     '' -- it doesn't have a logcdf method yet.\<newline>Open an issue or, even better, '' @
     ''a pull request on PyMC repo if you really need it.''"

text \<open>Lines 82 to 88: each key of \<open>init_guess\<close> is bound to the component of
  \<open>dist_params\<close> at its position, then the fixed parameters are stored over that.\<close>

definition params_to_optim :: "real dict \<Rightarrow> real dict option \<Rightarrow> sym dict" where
  "params_to_optim init_guess fixed_params =
     (let p = dict_comp (zip (dict_keys init_guess)
                             (map Subtensor [0 ..< length init_guess]))
      in case fixed_params of
           None \<Rightarrow> p
         | Some fp \<Rightarrow> dict_update p (map (\<lambda>(k, v). (k, Constant v)) fp))"

text \<open>Line 102: \<open>(exp(logcdf_upper) - exp(logcdf_lower)) - mass\<close>.\<close>

definition cdf_error :: "graph \<Rightarrow> graph \<Rightarrow> real \<Rightarrow> graph" where
  "cdf_error logcdf_upper logcdf_lower mass =
     G_sub (G_sub (G_exp logcdf_upper) (G_exp logcdf_lower)) (G_const mass)"

text \<open>Lines 92 to 100: only an AttributeError is caught and raised again with the
  module's own message; any other exception leaves the function as it is.\<close>

definition except_AttributeError :: "distribution \<Rightarrow> exn \<Rightarrow> exn" where
  "except_AttributeError pm_dist e =
     (if cls e = AttributeError then Exn AttributeError (msg_no_logcdf pm_dist) else e)"

text \<open>Lines 117 to 137, after the solver has succeeded with the vector \<open>xs\<close>.\<close>

definition save_and_check ::
  "distribution \<Rightarrow> real \<Rightarrow> real \<Rightarrow> addr \<Rightarrow> real \<Rightarrow> addr option \<Rightarrow> real list \<Rightarrow>
   state \<Rightarrow> (exn + addr) \<times> state" where
  "save_and_check pm_dist lower upper init_guess mass fixed_params xs s =
     (let (opt_params, s1) = new_dict (dict_comp (zip (dict_keys (heap s init_guess)) xs)) s;
          s2 = (case fixed_params of None \<Rightarrow> s1 | Some fp \<Rightarrow> update_at opt_params fp s1);
          opt_dist = map (\<lambda>(k, v). (k, Constant v)) (heap s2 opt_params);
          s3 = emit (Logcdf_call upper) (emit (Dist_call opt_dist) s2)
      in case pm_logcdf pm_dist opt_dist upper of
           Inl e \<Rightarrow> (Inl e, s3)
         | Inr lu \<Rightarrow>
             (let s4 = emit (Logcdf_call lower) s3
              in (case pm_logcdf pm_dist opt_dist lower of
                    Inl e \<Rightarrow> (Inl e, s4)
                  | Inr ll \<Rightarrow>
                      (case graph_eval (G_sub (G_exp lu) (G_exp ll)) [] of
                         Inl e \<Rightarrow> (Inl e, s4)
                       | Inr mass_in_interval \<Rightarrow>
                           (Inr opt_params,
                            if \<bar>mass_in_interval - mass\<bar> \<ge> 0.01
                            then emit (Warn mass_in_interval lower upper mass) s4
                            else s4)))))"

text \<open>Lines 103 to 115, once the residual graph is built. Compiling the residual
  (line 103) is outside every \<open>try\<close>: its exception leaves the function. Any exception
  of the gradient or of its compilation (lines 105 to 111) selects \<open>"2-point"\<close>.\<close>

definition solve ::
  "env \<Rightarrow> distribution \<Rightarrow> real \<Rightarrow> real \<Rightarrow> addr \<Rightarrow> real \<Rightarrow> addr option \<Rightarrow> graph \<Rightarrow>
   state \<Rightarrow> (exn + addr) \<times> state" where
  "solve E pm_dist lower upper init_guess mass fixed_params cdf_error_graph s =
     (let s1 = emit Function_call s
      in case aesara_function cdf_error_graph of
           Inl e \<Rightarrow> (Inl e, s1)
         | Inr cdf_error_fn \<Rightarrow>
             (let s2 = emit Gradient_call s1;
                  (jac, s3) = (case pm_gradient E cdf_error_graph of
                                 Inl e \<Rightarrow> (Jac_str ''2-point'', s2)
                               | Inr g \<Rightarrow> (Jac_fn g, emit Function_call s2));
                  x0 = dict_values (heap s3 init_guess);
                  s4 = emit (Least_squares_call cdf_error_fn x0 jac) s3
              in (case least_squares E cdf_error_fn x0 jac of
                    Inl e \<Rightarrow> (Inl e, s4)
                  | Inr opt \<Rightarrow>
                      if \<not> opt_success opt
                      then (Inl (Exn ValueError ''Optimization of parameters failed.''), s4)
                      else save_and_check pm_dist lower upper init_guess mass fixed_params
                             (opt_x opt) s4)))"

definition find_optim_prior ::
  "env \<Rightarrow> distribution \<Rightarrow> real \<Rightarrow> real \<Rightarrow> addr \<Rightarrow> real \<Rightarrow> addr option \<Rightarrow>
   state \<Rightarrow> (exn + addr) \<times> state" where
  "find_optim_prior E pm_dist lower upper init_guess mass fixed_params s =
     (if \<not> (0.01 < mass \<and> mass < 0.99) then (Inl (Exn AssertionError ''''), s)
      else if \<exists>d \<in> set (ndims_params pm_dist). d \<noteq> 0
      then (Inl (Exn NotImplementedError msg_non_scalar), s)
      else
        let dist' = params_to_optim (heap s init_guess) (map_option (heap s) fixed_params);
            s1 = emit (Logcdf_call (floatX lower)) (emit (Dist_call dist') s)
        in case pm_logcdf pm_dist dist' (floatX lower) of
             Inl e \<Rightarrow> (Inl (except_AttributeError pm_dist e), s1)
           | Inr logcdf_lower \<Rightarrow>
               (let s2 = emit (Logcdf_call (floatX upper)) s1
                in (case pm_logcdf pm_dist dist' (floatX upper) of
                      Inl e \<Rightarrow> (Inl (except_AttributeError pm_dist e), s2)
                    | Inr logcdf_upper \<Rightarrow>
                        solve E pm_dist lower upper init_guess mass fixed_params
                          (cdf_error logcdf_upper logcdf_lower mass) s2)))"

text \<open>The events a call has appended to the trace of the state it started in.\<close>

definition new_events :: "state \<Rightarrow> state \<Rightarrow> event list" where
  "new_events s s' = drop (length (trace s)) (trace s')"

section \<open>The parameter assignment of the specification\<close>

text \<open>The assignment "free = x, fixed": every key of \<open>init_guess\<close> names the
  component of \<open>x\<close> at its position, and every fixed parameter its fixed value,
  closed over as a constant.\<close>

definition assignment :: "real dict \<Rightarrow> real list \<Rightarrow> real dict option \<Rightarrow> (string \<rightharpoonup> real)" where
  "assignment init_guess x fixed_params =
     (case fixed_params of
        None \<Rightarrow> Map.empty(dict_keys init_guess [\<mapsto>] x)
      | Some fp \<Rightarrow> (Map.empty(dict_keys init_guess [\<mapsto>] x))(dict_keys fp [\<mapsto>] dict_values fp))"

text \<open>The value of a keyword argument at an input vector that is long enough for it.\<close>

definition sym_val :: "real list \<Rightarrow> sym \<Rightarrow> real" where
  "sym_val x s = (case s of Subtensor i \<Rightarrow> x ! i | Constant c \<Rightarrow> c)"

definition sym_in_range :: "nat \<Rightarrow> sym \<Rightarrow> bool" where
  "sym_in_range n s = (case s of Subtensor i \<Rightarrow> i < n | Constant c \<Rightarrow> True)"

section \<open>Concrete collaborators and inputs\<close>

text \<open>A family with two scalar parameters and a closed-form log-CDF, one with a
  matrix parameter, one without a log-CDF, and one whose log-CDF raises TypeError.\<close>

definition ex_uniform_logcdf :: "real \<Rightarrow> (string \<rightharpoonup> real) \<Rightarrow> real" where
  "ex_uniform_logcdf v kw =
     (case kw ''lower'' of
        None \<Rightarrow> 0
      | Some a \<Rightarrow> (case kw ''upper'' of None \<Rightarrow> 0 | Some b \<Rightarrow> ln ((v - a) / (b - a))))"

definition ex_uniform :: distribution where
  "ex_uniform =
     \<lparr>str = ''Uniform'', ndims_params = [0, 0],
      logcdf = (\<lambda>v. Inr (ex_uniform_logcdf v))\<rparr>"

definition ex_mvnormal :: distribution where
  "ex_mvnormal = ex_uniform\<lparr>str := ''MvNormal'', ndims_params := [1, 2]\<rparr>"

definition ex_no_logcdf :: distribution where
  "ex_no_logcdf =
     \<lparr>str = ''Wald'', ndims_params = [0, 0],
      logcdf = (\<lambda>v. Inl (Exn AttributeError ''no attribute logcdf''))\<rparr>"

definition ex_type_error :: distribution where
  "ex_type_error =
     \<lparr>str = ''Wald'', ndims_params = [0, 0],
      logcdf = (\<lambda>v. Inl (Exn TypeError ''unsupported operand''))\<rparr>"

text \<open>An engine that cannot differentiate, and solvers that answer with a fixed vector
  and a fixed success flag.\<close>

definition ex_env :: "real list \<Rightarrow> bool \<Rightarrow> env" where
  "ex_env xs ok =
     \<lparr>pm_gradient = (\<lambda>g. Inl (Exn NotImplementedError ''grad'')),
      least_squares = (\<lambda>f x0 j. Inr \<lparr>opt_x = xs, opt_success = ok\<rparr>)\<rparr>"

text \<open>A store with \<open>{"lower": 0, "upper": 3}\<close> at address 0 and \<open>{"upper": 2.5}\<close> at
  address 1, and an empty trace.\<close>

definition ex_state :: state where
  "ex_state =
     \<lparr>heap = (\<lambda>a. [])(0 := [(''lower'', 0), (''upper'', 3)], 1 := [(''upper'', 5 / 2)]),
      next_addr = 2, trace = []\<rparr>"

definition ex_params :: "sym dict" where
  "ex_params = [(''lower'', Subtensor 0), (''upper'', Subtensor 1)]"

definition ex_params_fixed :: "sym dict" where
  "ex_params_fixed = [(''lower'', Subtensor 0), (''upper'', Constant (5 / 2))]"

definition ex_cdf_error :: "sym dict \<Rightarrow> graph" where
  "ex_cdf_error p =
     cdf_error (G_logcdf (ex_uniform_logcdf 2) p) (G_logcdf (ex_uniform_logcdf 1) p) (1 / 2)"

definition ex_residual :: "sym dict \<Rightarrow> compiled" where
  "ex_residual p = graph_eval (ex_cdf_error p)"

text \<open>A store with \<open>{"upper": 3}\<close> at address 0 and \<open>{"lower": 0.5, "upper": 2.5}\<close> at
  address 1: every key of the first is a key of the second.\<close>

definition ex_state_all_fixed :: state where
  "ex_state_all_fixed =
     \<lparr>heap = (\<lambda>a. [])(0 := [(''upper'', 3)], 1 := [(''lower'', 1 / 2), (''upper'', 5 / 2)]),
      next_addr = 2, trace = []\<rparr>"

definition ex_params_all_fixed :: "sym dict" where
  "ex_params_all_fixed = [(''upper'', Constant (5 / 2)), (''lower'', Constant (1 / 2))]"

text \<open>Calls with bounds 1 and 2 and mass 0.5 on the dictionary at address 0: one where
  the solver answers the exact solution, one where it answers the initial guess, one
  where it reports failure, one with the dictionary at address 1 as fixed parameters,
  and one each on the families whose log-CDF raises.\<close>

definition run_ok :: "(exn + addr) \<times> state" where
  "run_ok = find_optim_prior (ex_env [1 / 2, 5 / 2] True) ex_uniform 1 2 0 (1 / 2) None ex_state"

definition run_warn :: "(exn + addr) \<times> state" where
  "run_warn = find_optim_prior (ex_env [0, 3] True) ex_uniform 1 2 0 (1 / 2) None ex_state"

definition run_failed :: "(exn + addr) \<times> state" where
  "run_failed = find_optim_prior (ex_env [0, 3] False) ex_uniform 1 2 0 (1 / 2) None ex_state"

definition run_fixed :: "(exn + addr) \<times> state" where
  "run_fixed =
     find_optim_prior (ex_env [1 / 2, 7 / 2] True) ex_uniform 1 2 0 (1 / 2) (Some 1) ex_state"

definition run_no_logcdf :: "(exn + addr) \<times> state" where
  "run_no_logcdf =
     find_optim_prior (ex_env [0, 3] True) ex_no_logcdf 1 2 0 (1 / 2) None ex_state"

definition run_type_error :: "(exn + addr) \<times> state" where
  "run_type_error =
     find_optim_prior (ex_env [0, 3] True) ex_type_error 1 2 0 (1 / 2) None ex_state"

definition run_all_fixed :: "(exn + addr) \<times> state" where
  "run_all_fixed =
     find_optim_prior (ex_env [7 / 2] True) ex_uniform 1 2 0 (1 / 2) (Some 1) ex_state_all_fixed"

section \<open>Dictionaries as maps\<close>

lemma map_of_fold_update:
  "map_of (fold (\<lambda>(k, v). AList.update k v) e d) = (map_of d)(map fst e [\<mapsto>] map snd e)"
  by (induction e arbitrary: d) (auto simp: update_conv')

lemma keys_fold_update:
  "fst ` set (fold (\<lambda>(k, v). AList.update k v) e d) = fst ` set d \<union> fst ` set e"
proof (induction e arbitrary: d)
  case Nil
  then show ?case by simp
next
  case (Cons p e)
  obtain k v where p: "p = (k, v)" by (cases p)
  have "fst ` set (fold (\<lambda>(k, v). AList.update k v) e (AList.update k v d))
          = ({k} \<union> fst ` set d) \<union> fst ` set e"
    by (simp only: Cons.IH dom_update)
  then show ?case by (simp add: p Un_commute Un_left_commute insert_commute)
qed

lemma snd_set_update: "snd ` set (AList.update k v d) \<subseteq> insert v (snd ` set d)"
  by (induction d) auto

lemma snd_set_fold_update:
  "snd ` set (fold (\<lambda>(k, v). AList.update k v) e d) \<subseteq> snd ` set d \<union> snd ` set e"
proof (induction e arbitrary: d)
  case Nil
  then show ?case by simp
next
  case (Cons p e)
  obtain k v where p: "p = (k, v)" by (cases p)
  have "snd ` set (fold (\<lambda>(k, v). AList.update k v) e (AList.update k v d))
          \<subseteq> snd ` set (AList.update k v d) \<union> snd ` set e"
    by (rule Cons.IH)
  with snd_set_update [of k v d] show ?case by (simp add: p) blast
qed

lemma map_of_dict_comp:
  "length ks = length vs \<Longrightarrow> map_of (dict_comp (zip ks vs)) = Map.empty(ks [\<mapsto>] vs)"
  by (simp add: dict_comp_def map_of_fold_update)

lemma map_of_dict_update:
  "map_of (dict_update d e) = (map_of d)(dict_keys e [\<mapsto>] dict_values e)"
  by (simp add: dict_update_def map_of_fold_update dict_keys_def dict_values_def)

lemma keys_dict_comp:
  "length ks = length vs \<Longrightarrow> set (dict_keys (dict_comp (zip ks vs))) = set ks"
  using keys_fold_update [of "zip ks vs" "[]"]
  by (simp add: dict_keys_def dict_comp_def) (metis map_fst_zip set_map)

lemma keys_dict_update:
  "set (dict_keys (dict_update d e)) = set (dict_keys d) \<union> set (dict_keys e)"
  using keys_fold_update [of e d] by (simp add: dict_keys_def dict_update_def)

lemma upds_cong: "m k = m' k \<Longrightarrow> (m(ks [\<mapsto>] vs)) k = (m'(ks [\<mapsto>] vs)) k"
  by (simp add: map_upds_def map_add_def split: option.splits)

lemma upds_nth:
  assumes "distinct ks" "i < length ks" "length xs = length ks"
  shows "(m(ks [\<mapsto>] xs)) (ks ! i) = Some (xs ! i)"
proof -
  have "(ks ! i, xs ! i) \<in> set (rev (zip ks xs))"
    using assms by (auto simp: set_zip)
  moreover have "distinct (map fst (rev (zip ks xs)))"
    using assms by (simp add: rev_map [symmetric])
  ultimately have "map_of (rev (zip ks xs)) (ks ! i) = Some (xs ! i)"
    by (rule map_of_is_SomeI [rotated])
  then show ?thesis by (simp add: map_upds_def)
qed

lemma upds_entry:
  "distinct (map fst e) \<Longrightarrow> (k, v) \<in> set e \<Longrightarrow> (m(map fst e [\<mapsto>] map snd e)) k = Some v"
proof -
  assume d: "distinct (map fst e)" and kv: "(k, v) \<in> set e"
  then obtain i where i: "i < length e" "e ! i = (k, v)" by (auto simp: in_set_conv_nth)
  from upds_nth [OF d, of i "map snd e" m] i show ?thesis by simp
qed

lemma upds_update_other:
  "i < length ks \<Longrightarrow> k \<noteq> ks ! i \<Longrightarrow> (m(ks [\<mapsto>] xs[i := v])) k = (m(ks [\<mapsto>] xs)) k"
proof (induction ks arbitrary: i xs m)
  case Nil
  then show ?case by simp
next
  case (Cons a ks)
  show ?case
  proof (cases xs)
    case Nil
    then show ?thesis by simp
  next
    case xs: (Cons y ys)
    show ?thesis
    proof (cases i)
      case 0
      with Cons.prems have "(m(a \<mapsto> v)) k = (m(a \<mapsto> y)) k" by simp
      then have "((m(a \<mapsto> v))(ks [\<mapsto>] ys)) k = ((m(a \<mapsto> y))(ks [\<mapsto>] ys)) k"
        by (rule upds_cong)
      with 0 xs show ?thesis by (simp del: fun_upd_apply)
    next
      case (Suc i')
      with Cons.prems have "((m(a \<mapsto> y))(ks [\<mapsto>] ys[i' := v])) k = ((m(a \<mapsto> y))(ks [\<mapsto>] ys)) k"
        by (intro Cons.IH) simp_all
      with Suc xs show ?thesis by (simp del: fun_upd_apply)
    qed
  qed
qed

lemma upds_in_keys:
  assumes "k \<in> set ks" "length vs = length ks"
  shows "(m(ks [\<mapsto>] vs)) k = (m'(ks [\<mapsto>] vs)) k"
proof -
  have "fst ` set (rev (zip ks vs)) = set ks"
    using assms(2) by (metis map_fst_zip set_map set_rev)
  with assms(1) have "map_of (rev (zip ks vs)) k \<noteq> None"
    by (simp add: map_of_eq_None_iff)
  then show ?thesis
    by (auto simp: map_upds_def map_add_def split: option.splits)
qed

lemma map_option_upds:
  "map_option f \<circ> (m(ks [\<mapsto>] vs)) = (map_option f \<circ> m)(ks [\<mapsto>] map f vs)"
proof (induction ks arbitrary: m vs)
  case Nil
  then show ?case by simp
next
  case (Cons k ks)
  show ?case
  proof (cases vs)
    case Nil
    then show ?thesis by simp
  next
    case (Cons v vs')
    have "map_option f \<circ> (m(k \<mapsto> v)) = (map_option f \<circ> m)(k \<mapsto> f v)"
      by (rule ext) simp
    then have "(map_option f \<circ> (m(k \<mapsto> v)))(ks [\<mapsto>] map f vs')
                 = ((map_option f \<circ> m)(k \<mapsto> f v))(ks [\<mapsto>] map f vs')"
      by (rule arg_cong)
    with Cons.IH [of "m(k \<mapsto> v)" vs'] show ?thesis
      by (simp only: Cons map_upds_Cons list.map)
  qed
qed

section \<open>Evaluating keyword arguments\<close>

lemma eval_kwargs_in_range:
  "\<forall>s \<in> snd ` set d. sym_in_range (length x) s \<Longrightarrow>
   eval_kwargs x d = Inr (map (\<lambda>(k, s). (k, sym_val x s)) d)"
  by (induction d) (auto simp: sym_in_range_def sym_val_def split: sym.splits)

lemma eval_kwargs_Constant: "eval_kwargs x (map (\<lambda>(k, v). (k, Constant v)) d) = Inr d"
  by (induction d) auto

lemma graph_eval_Constant:
  "graph_eval (G_logcdf g (map (\<lambda>(k, v). (k, Constant v)) d)) x = Inr (g (map_of d))"
  by (simp add: eval_kwargs_Constant)

lemma map_of_map_val: "map_of (map (\<lambda>(k, s). (k, f s)) d) = map_option f \<circ> map_of d"
  by (induction d) auto

lemma fst_map_Constant: "map (fst \<circ> (\<lambda>(k, v). (k, Constant v))) f = map fst f"
  by (induction f) auto

lemma snd_map_Constant: "map (snd \<circ> (\<lambda>(k, v). (k, Constant v))) f = map (Constant \<circ> snd) f"
  by (induction f) auto

lemma params_in_range:
  assumes len: "length x = length ig"
  shows "\<forall>s \<in> snd ` set (params_to_optim ig fp). sym_in_range (length x) s"
proof -
  let ?p = "dict_comp (zip (dict_keys ig) (map Subtensor [0 ..< length ig]))"
  have p: "\<forall>s \<in> snd ` set ?p. sym_in_range (length x) s"
  proof
    fix s assume "s \<in> snd ` set ?p"
    then have "s \<in> snd ` set (zip (dict_keys ig) (map Subtensor [0 ..< length ig]))"
      using snd_set_fold_update [of "zip (dict_keys ig) (map Subtensor [0 ..< length ig])" "[]"]
      by (auto simp: dict_comp_def)
    then have "s \<in> set (map Subtensor [0 ..< length ig])"
      by (auto dest: set_zip_rightD)
    then show "sym_in_range (length x) s" by (auto simp: sym_in_range_def len)
  qed
  show ?thesis
  proof (cases fp)
    case None
    with p show ?thesis by (simp add: params_to_optim_def)
  next
    case (Some f)
    have "snd ` set (dict_update ?p (map (\<lambda>(k, v). (k, Constant v)) f))
            \<subseteq> snd ` set ?p \<union> snd ` set (map (\<lambda>(k, v). (k, Constant v)) f)"
      unfolding dict_update_def by (rule snd_set_fold_update)
    moreover have "\<forall>s \<in> snd ` set (map (\<lambda>(k, v). (k, Constant v)) f). sym_in_range (length x) s"
      by (auto simp: sym_in_range_def)
    ultimately have "\<forall>s \<in> snd ` set (dict_update ?p (map (\<lambda>(k, v). (k, Constant v)) f)).
                       sym_in_range (length x) s"
      using p by blast
    then show ?thesis using Some by (simp add: params_to_optim_def Let_def)
  qed
qed

lemma map_of_params:
  "map_of (params_to_optim ig fp) =
     (case fp of
        None \<Rightarrow> Map.empty(dict_keys ig [\<mapsto>] map Subtensor [0 ..< length ig])
      | Some f \<Rightarrow> (Map.empty(dict_keys ig [\<mapsto>] map Subtensor [0 ..< length ig]))
                    (dict_keys f [\<mapsto>] map Constant (dict_values f)))"
proof -
  have "map_of (dict_comp (zip (dict_keys ig) (map Subtensor [0 ..< length ig])))
          = Map.empty(dict_keys ig [\<mapsto>] map Subtensor [0 ..< length ig])"
    by (rule map_of_dict_comp) (simp add: dict_keys_def)
  then show ?thesis
    by (simp add: params_to_optim_def Let_def map_of_dict_update dict_keys_def dict_values_def
        fst_map_Constant snd_map_Constant split: option.splits)
qed

lemma eval_params:
  assumes "length x = length ig"
  shows "\<exists>kw. eval_kwargs x (params_to_optim ig fp) = Inr kw \<and> map_of kw = assignment ig x fp"
proof -
  let ?d = "params_to_optim ig fp"
  have e: "eval_kwargs x ?d = Inr (map (\<lambda>(k, s). (k, sym_val x s)) ?d)"
    using params_in_range [OF assms] by (rule eval_kwargs_in_range)
  have sv: "map (sym_val x \<circ> Subtensor) [0 ..< length ig] = x"
    using map_nth [of x] by (simp add: sym_val_def comp_def assms)
  have cv: "\<And>vs. map (sym_val x \<circ> Constant) vs = vs"
    by (simp add: sym_val_def comp_def)
  have "map_of (map (\<lambda>(k, s). (k, sym_val x s)) ?d) = assignment ig x fp"
    by (simp add: map_of_map_val map_of_params map_option_upds sv cv assignment_def
        split: option.splits)
  with e show ?thesis by simp
qed

lemma residual_value:
  assumes "length x = length ig"
  shows "graph_eval (cdf_error (G_logcdf gu (params_to_optim ig fp))
                               (G_logcdf gl (params_to_optim ig fp)) mass) x
         = Inr (exp (gu (assignment ig x fp)) - exp (gl (assignment ig x fp)) - mass)"
proof -
  from eval_params [OF assms, of fp]
  obtain kw where "eval_kwargs x (params_to_optim ig fp) = Inr kw"
    "map_of kw = assignment ig x fp"
    by blast
  then show ?thesis
    by (simp add: cdf_error_def)
qed

lemma assignment_update_fixed:
  assumes "i < length ig" "dict_keys ig ! i \<in> set (dict_keys fixed)"
  shows "assignment ig (x[i := w]) (Some fixed) = assignment ig x (Some fixed)"
proof (rule ext)
  fix k
  show "assignment ig (x[i := w]) (Some fixed) k = assignment ig x (Some fixed) k"
  proof (cases "k \<in> set (dict_keys fixed)")
    case True
    then show ?thesis
      by (simp add: assignment_def upds_in_keys dict_keys_def dict_values_def)
  next
    case False
    with assms have "k \<noteq> dict_keys ig ! i" by auto
    with False assms(1) show ?thesis
      by (simp add: assignment_def upds_update_other dict_keys_def)
  qed
qed


section \<open>When the input vector is part of the residual graph\<close>

lemma has_input_cdf_error:
  "has_input (cdf_error (G_logcdf gu d) (G_logcdf gl d) mass)
     = (\<exists>s \<in> set (map snd d). is_Subtensor s)"
  by (simp add: cdf_error_def)

lemma distinct_fold_update:
  "distinct (map fst d) \<Longrightarrow> distinct (map fst (fold (\<lambda>(k, v). AList.update k v) e d))"
  by (induction e arbitrary: d) (auto simp: distinct_update)

lemma distinct_params: "distinct (map fst (params_to_optim ig fp))"
  by (simp add: params_to_optim_def Let_def dict_comp_def dict_update_def distinct_fold_update
      split: option.splits)

lemma keys_params:
  "set (dict_keys (params_to_optim ig fp)) =
     set (dict_keys ig) \<union> (case fp of None \<Rightarrow> {} | Some f \<Rightarrow> set (dict_keys f))"
proof -
  have c: "set (dict_keys (dict_comp (zip (dict_keys ig) (map Subtensor [0 ..< length ig]))))
             = set (dict_keys ig)"
    by (rule keys_dict_comp) (simp add: dict_keys_def)
  have k: "\<And>f. dict_keys (map (\<lambda>(k, v). (k, Constant v)) f) = dict_keys f"
    by (simp add: dict_keys_def fst_map_Constant)
  show ?thesis
    by (cases fp) (simp_all add: params_to_optim_def Let_def keys_dict_update c k)
qed

lemma upds_value:
  assumes "k \<in> set ks" "length vs = length ks"
  shows "\<exists>v \<in> set vs. (m(ks [\<mapsto>] vs)) k = Some v"
proof -
  have "fst ` set (rev (zip ks vs)) = set ks"
    using assms(2) by (metis map_fst_zip set_map set_rev)
  with assms(1) obtain v where v: "map_of (rev (zip ks vs)) k = Some v"
    by (metis map_of_eq_None_iff not_Some_eq)
  then have "(k, v) \<in> set (zip ks vs)"
    by (auto dest: map_of_SomeD)
  then have "v \<in> set vs" by (rule set_zip_rightD)
  with v show ?thesis by (auto simp: map_upds_def map_add_def)
qed

text \<open>A key of \<open>init_guess\<close> that is not fixed keeps its component of \<open>dist_params\<close>.\<close>

lemma free_key_is_input:
  assumes "k \<in> set (dict_keys ig)"
    and "\<forall>f. fp = Some f \<longrightarrow> k \<notin> set (dict_keys f)"
  shows "\<exists>s \<in> set (map snd (params_to_optim ig fp)). is_Subtensor s"
proof -
  have "\<exists>v \<in> set (map Subtensor [0 ..< length ig]).
          (Map.empty(dict_keys ig [\<mapsto>] map Subtensor [0 ..< length ig])) k = Some v"
    using assms(1) by (intro upds_value) (simp_all add: dict_keys_def)
  then obtain i where "(Map.empty(dict_keys ig [\<mapsto>] map Subtensor [0 ..< length ig])) k
                         = Some (Subtensor i)"
    by auto
  with assms(2) have "map_of (params_to_optim ig fp) k = Some (Subtensor i)"
    by (cases fp) (simp_all add: map_of_params)
  then have "(k, Subtensor i) \<in> set (params_to_optim ig fp)"
    by (rule map_of_SomeD)
  then have "Subtensor i \<in> set (map snd (params_to_optim ig fp))"
    by force
  then show ?thesis by (intro bexI [of _ "Subtensor i"]) simp_all
qed

text \<open>When every key of \<open>init_guess\<close> is fixed, no keyword argument is symbolic.\<close>

lemma no_free_key_no_input:
  assumes "\<forall>k \<in> set (dict_keys ig). \<exists>f. fp = Some f \<and> k \<in> set (dict_keys f)"
  shows "\<not> (\<exists>s \<in> set (map snd (params_to_optim ig fp)). is_Subtensor s)"
proof
  assume "\<exists>s \<in> set (map snd (params_to_optim ig fp)). is_Subtensor s"
  then obtain k i where ki: "(k, Subtensor i) \<in> set (params_to_optim ig fp)"
    by (auto elim: is_Subtensor.elims)
  then have m: "map_of (params_to_optim ig fp) k = Some (Subtensor i)"
    using distinct_params by (intro map_of_is_SomeI)
  from ki have "k \<in> set (dict_keys (params_to_optim ig fp))"
    by (force simp: dict_keys_def)
  then have "\<exists>f. fp = Some f \<and> k \<in> set (dict_keys f)"
    using assms by (auto simp: keys_params split: option.splits)
  then obtain f where f: "fp = Some f" "k \<in> set (dict_keys f)" by blast
  have "\<exists>v \<in> set (map Constant (dict_values f)).
          ((Map.empty(dict_keys ig [\<mapsto>] map Subtensor [0 ..< length ig]))
             (dict_keys f [\<mapsto>] map Constant (dict_values f))) k = Some v"
    using f(2) by (intro upds_value) (simp_all add: dict_keys_def dict_values_def)
  with m f(1) show False by (auto simp: map_of_params)
qed

section \<open>The shape of a call\<close>

lemmas run_defs = find_optim_prior_def solve_def save_and_check_def emit_def new_dict_def
  update_at_def floatX_def Let_def new_events_def

lemmas path_simps = run_defs pm_logcdf_def except_AttributeError_def eval_kwargs_Constant

lemma solver_called_once:
  assumes "0.01 < mass" "mass < 0.99" "\<forall>n \<in> set (ndims_params pm_dist). n = 0"
    and "pm_logcdf pm_dist (params_to_optim (heap s init_guess) (map_option (heap s) fixed_params))
           lower = Inr logcdf_lower"
    and "pm_logcdf pm_dist (params_to_optim (heap s init_guess) (map_option (heap s) fixed_params))
           upper = Inr logcdf_upper"
    and "aesara_function (cdf_error logcdf_upper logcdf_lower mass) = Inr cdf_error_fn"
    and "find_optim_prior E pm_dist lower upper init_guess mass fixed_params s = (r, s')"
  shows "filter is_solver_call (new_events s s') =
           [Least_squares_call cdf_error_fn (dict_values (heap s init_guess))
              (case pm_gradient E (cdf_error logcdf_upper logcdf_lower mass) of
                 Inl e \<Rightarrow> Jac_str ''2-point'' | Inr g \<Rightarrow> Jac_fn g)]"
  using assms
  by (auto simp: run_defs split: if_splits sum.splits option.splits prod.splits)

lemma unused_input_raises:
  assumes "0.01 < mass" "mass < 0.99" "\<forall>n \<in> set (ndims_params pm_dist). n = 0"
    and "pm_logcdf pm_dist (params_to_optim (heap s init_guess) (map_option (heap s) fixed_params))
           lower = Inr logcdf_lower"
    and "pm_logcdf pm_dist (params_to_optim (heap s init_guess) (map_option (heap s) fixed_params))
           upper = Inr logcdf_upper"
    and "aesara_function (cdf_error logcdf_upper logcdf_lower mass) = Inl e"
    and "find_optim_prior E pm_dist lower upper init_guess mass fixed_params s = (r, s')"
  shows "r = Inl e \<and> filter is_solver_call (new_events s s') = []"
  using assms
  by (auto simp: run_defs split: if_splits sum.splits option.splits prod.splits)

lemma first_event:
  assumes "0.01 < mass" "mass < 0.99" "\<forall>n \<in> set (ndims_params pm_dist). n = 0"
    and "find_optim_prior E pm_dist lower upper init_guess mass fixed_params s = (r, s')"
  shows "\<exists>rest. new_events s s' =
           Dist_call (params_to_optim (heap s init_guess) (map_option (heap s) fixed_params)) # rest"
  using assms
  by (auto simp: run_defs split: if_splits sum.splits option.splits prod.splits)

lemma result_dict:
  assumes "find_optim_prior E pm_dist lower upper init_guess mass fixed_params s = (Inr a, s')"
    and "Least_squares_call f x0 j \<in> set (new_events s s')"
    and "least_squares E f x0 j = Inr opt"
    and "\<forall>fp. fixed_params = Some fp \<longrightarrow> fp < next_addr s"
  shows "a = next_addr s \<and>
         heap s' a =
           (case fixed_params of
              None \<Rightarrow> dict_comp (zip (dict_keys (heap s init_guess)) (opt_x opt))
            | Some fp \<Rightarrow> dict_update (dict_comp (zip (dict_keys (heap s init_guess)) (opt_x opt)))
                          (heap s fp))"
  using assms
  by (auto simp: path_simps split: if_splits sum.splits option.splits prod.splits)

lemma result_dict_fixed:
  assumes "find_optim_prior E pm_dist lower upper init_guess mass (Some fp) s = (Inr a, s')"
    and "fp < next_addr s"
  shows "\<exists>d. heap s' a = dict_update d (heap s fp)"
  using assms
  by (auto simp: path_simps split: if_splits sum.splits option.splits prod.splits)

section \<open>The concrete calls, evaluated\<close>

lemma ex_params_eval: "params_to_optim [(''lower'', 0), (''upper'', 3)] None = ex_params"
  by (simp add: params_to_optim_def dict_comp_def dict_keys_def ex_params_def upt_rec)

lemma ex_params_fixed_eval:
  "params_to_optim [(''lower'', 0), (''upper'', 3)] (Some [(''upper'', 5 / 2)]) = ex_params_fixed"
  by (simp add: params_to_optim_def dict_comp_def dict_update_def dict_keys_def
      ex_params_fixed_def upt_rec)

lemma ex_params_all_fixed_eval:
  "params_to_optim [(''upper'', 3)] (Some [(''lower'', 1 / 2), (''upper'', 5 / 2)])
     = ex_params_all_fixed"
  by (simp add: params_to_optim_def dict_comp_def dict_update_def dict_keys_def
      ex_params_all_fixed_def upt_rec)

lemmas ex_defs = ex_env_def ex_uniform_def ex_state_def ex_params_eval ex_params_fixed_eval
  ex_residual_def ex_cdf_error_def cdf_error_def aesara_function_def
  dict_comp_def dict_update_def dict_keys_def dict_values_def
  eval_kwargs_Constant ex_uniform_logcdf_def pm_logcdf_def except_AttributeError_def

lemma ex_compiled:
  "aesara_function (ex_cdf_error ex_params) = Inr (ex_residual ex_params)"
  "aesara_function (ex_cdf_error ex_params_fixed) = Inr (ex_residual ex_params_fixed)"
  "aesara_function (ex_cdf_error ex_params_all_fixed)
     = Inl (Exn UnusedInputError msg_unused_input)"
  by (simp_all add: aesara_function_def ex_cdf_error_def cdf_error_def ex_residual_def
      ex_params_def ex_params_fixed_def ex_params_all_fixed_def)

lemma run_ok_eval:
  "run_ok =
     (Inr 2,
      \<lparr>heap = (heap ex_state)(2 := [(''lower'', 1 / 2), (''upper'', 5 / 2)]),
       next_addr = 3,
       trace = [Dist_call ex_params, Logcdf_call 1, Logcdf_call 2, Function_call, Gradient_call,
                Least_squares_call (ex_residual ex_params) [0, 3] (Jac_str ''2-point''),
                Dist_call [(''lower'', Constant (1 / 2)), (''upper'', Constant (5 / 2))],
                Logcdf_call 2, Logcdf_call 1]\<rparr>)"
  by (simp add: run_ok_def run_defs ex_defs ex_params_def)

lemma run_warn_eval:
  "run_warn =
     (Inr 2,
      \<lparr>heap = (heap ex_state)(2 := [(''lower'', 0), (''upper'', 3)]),
       next_addr = 3,
       trace = [Dist_call ex_params, Logcdf_call 1, Logcdf_call 2, Function_call, Gradient_call,
                Least_squares_call (ex_residual ex_params) [0, 3] (Jac_str ''2-point''),
                Dist_call [(''lower'', Constant 0), (''upper'', Constant 3)],
                Logcdf_call 2, Logcdf_call 1, Warn (1 / 3) 1 2 (1 / 2)]\<rparr>)"
  by (simp add: run_warn_def run_defs ex_defs ex_params_def)

lemma run_failed_eval:
  "run_failed =
     (Inl (Exn ValueError ''Optimization of parameters failed.''),
      ex_state\<lparr>trace :=
        [Dist_call ex_params, Logcdf_call 1, Logcdf_call 2, Function_call, Gradient_call,
         Least_squares_call (ex_residual ex_params) [0, 3] (Jac_str ''2-point'')]\<rparr>)"
  by (simp add: run_failed_def run_defs ex_defs ex_params_def)

lemma run_fixed_eval:
  "run_fixed =
     (Inr 2,
      \<lparr>heap = (heap ex_state)(2 := [(''lower'', 1 / 2), (''upper'', 5 / 2)]),
       next_addr = 3,
       trace = [Dist_call ex_params_fixed, Logcdf_call 1, Logcdf_call 2, Function_call,
                Gradient_call,
                Least_squares_call (ex_residual ex_params_fixed) [0, 3] (Jac_str ''2-point''),
                Dist_call [(''lower'', Constant (1 / 2)), (''upper'', Constant (5 / 2))],
                Logcdf_call 2, Logcdf_call 1]\<rparr>)"
  by (simp add: run_fixed_def run_defs ex_defs ex_params_fixed_def)

lemma run_no_logcdf_eval:
  "run_no_logcdf =
     (Inl (Exn AttributeError (msg_no_logcdf ex_no_logcdf)),
      ex_state\<lparr>trace := [Dist_call ex_params, Logcdf_call 1]\<rparr>)"
  by (simp add: run_no_logcdf_def run_defs ex_defs ex_no_logcdf_def)

lemma run_type_error_eval:
  "run_type_error =
     (Inl (Exn TypeError ''unsupported operand''),
      ex_state\<lparr>trace := [Dist_call ex_params, Logcdf_call 1]\<rparr>)"
  by (simp add: run_type_error_def run_defs ex_defs ex_type_error_def)

lemma run_all_fixed_eval:
  "run_all_fixed =
     (Inl (Exn UnusedInputError msg_unused_input),
      ex_state_all_fixed\<lparr>trace :=
        [Dist_call ex_params_all_fixed, Logcdf_call 1, Logcdf_call 2, Function_call]\<rparr>)"
  by (simp add: run_all_fixed_def run_defs ex_defs ex_state_all_fixed_def
      ex_params_all_fixed_eval ex_params_all_fixed_def)

section \<open>The residual\<close>

text \<open>C1. Let the mass be valid, the parameters scalar and the family's log-CDF built
  at both bounds (as \<open>gl\<close> and \<open>gu\<close>). When some key of \<open>init_guess\<close> is not a key of
  \<open>fixed_params\<close>, the residual is compiled, the call invokes the solver exactly once,
  and the residual function it hands to the solver, at every vector \<open>x\<close> with one value
  per key of \<open>init_guess\<close>, equals
  \<open>exp (logCDF(upper; free = x, fixed)) - exp (logCDF(lower; free = x, fixed)) - mass\<close>.
  Otherwise \<open>dist_params\<close> is not part of the residual graph: compiling it raises
  UnusedInputError, no residual function is built and the solver is not invoked.\<close>

theorem residual_equation:
  assumes "0.01 < mass" "mass < 0.99" "\<forall>n \<in> set (ndims_params pm_dist). n = 0"
    and "logcdf pm_dist lower = Inr gl"
    and "logcdf pm_dist upper = Inr gu"
    and "find_optim_prior E pm_dist lower upper init_guess mass fixed_params s = (r, s')"
    and "fixed = (case fixed_params of None \<Rightarrow> [] | Some fp \<Rightarrow> heap s fp)"
  shows "if \<exists>k \<in> set (dict_keys (heap s init_guess)). k \<notin> set (dict_keys fixed)
         then \<exists>residual x0 j.
                filter is_solver_call (new_events s s') = [Least_squares_call residual x0 j] \<and>
                (\<forall>x. length x = length (heap s init_guess) \<longrightarrow>
                   residual x =
                     Inr (exp (gu (assignment (heap s init_guess) x
                                     (map_option (heap s) fixed_params)))
                          - exp (gl (assignment (heap s init_guess) x
                                       (map_option (heap s) fixed_params)))
                          - mass))
         else r = Inl (Exn UnusedInputError msg_unused_input) \<and>
              filter is_solver_call (new_events s s') = []"
proof -
  let ?ig = "heap s init_guess" and ?fp = "map_option (heap s) fixed_params"
  let ?d = "params_to_optim ?ig ?fp"
  let ?g = "cdf_error (G_logcdf gu ?d) (G_logcdf gl ?d) mass"
  have ll: "pm_logcdf pm_dist ?d lower = Inr (G_logcdf gl ?d)"
    and lu: "pm_logcdf pm_dist ?d upper = Inr (G_logcdf gu ?d)"
    using assms(4,5) by (simp_all add: pm_logcdf_def)
  show ?thesis
  proof (cases "\<exists>k \<in> set (dict_keys ?ig). k \<notin> set (dict_keys fixed)")
    case True
    then obtain k where k: "k \<in> set (dict_keys ?ig)" "k \<notin> set (dict_keys fixed)" by blast
    from k(2) assms(7) have "\<forall>f. ?fp = Some f \<longrightarrow> k \<notin> set (dict_keys f)"
      by (auto split: option.splits)
    with k(1) have "has_input ?g"
      by (simp only: has_input_cdf_error free_key_is_input)
    then have c: "aesara_function ?g = Inr (graph_eval ?g)"
      by (simp add: aesara_function_def)
    have "filter is_solver_call (new_events s s') =
            [Least_squares_call (graph_eval ?g) (dict_values ?ig)
               (case pm_gradient E ?g of Inl e \<Rightarrow> Jac_str ''2-point'' | Inr g \<Rightarrow> Jac_fn g)]"
      by (rule solver_called_once [OF assms(1-3) ll lu c assms(6)])
    moreover have "\<forall>x. length x = length ?ig \<longrightarrow>
        graph_eval ?g x = Inr (exp (gu (assignment ?ig x ?fp)) - exp (gl (assignment ?ig x ?fp)) - mass)"
      by (simp add: residual_value)
    ultimately have "\<exists>residual x0 j.
        filter is_solver_call (new_events s s') = [Least_squares_call residual x0 j] \<and>
        (\<forall>x. length x = length ?ig \<longrightarrow>
           residual x = Inr (exp (gu (assignment ?ig x ?fp)) - exp (gl (assignment ?ig x ?fp)) - mass))"
      by blast
    with True show ?thesis by (simp only: if_True)
  next
    case False
    with assms(7) have "\<forall>k \<in> set (dict_keys ?ig). \<exists>f. ?fp = Some f \<and> k \<in> set (dict_keys f)"
      by (auto simp: dict_keys_def split: option.splits)
    then have "\<not> has_input ?g"
      by (simp only: has_input_cdf_error no_free_key_no_input not_False_eq_True)
    then have c: "aesara_function ?g = Inl (Exn UnusedInputError msg_unused_input)"
      by (simp add: aesara_function_def)
    from unused_input_raises [OF assms(1-3) ll lu c assms(6)] False
    show ?thesis by (simp only: if_False)
  qed
qed

theorem residual_equation_witness:
  "(0.01 :: real) < 1 / 2 \<and> (1 / 2 :: real) < 0.99 \<and> ndims_params ex_uniform = [0, 0] \<and>
   logcdf ex_uniform 1 = Inr (ex_uniform_logcdf 1) \<and>
   logcdf ex_uniform 2 = Inr (ex_uniform_logcdf 2) \<and>
   (\<exists>residual x0 j.
      filter is_solver_call (new_events ex_state (snd run_ok)) =
        [Least_squares_call residual x0 j] \<and>
      residual [1 / 2, 5 / 2] = Inr 0 \<and> residual [0, 3] = Inr (- 1 / 6)) \<and>
   fst run_all_fixed = Inl (Exn UnusedInputError msg_unused_input) \<and>
   filter is_solver_call (new_events ex_state_all_fixed (snd run_all_fixed)) = []"
proof -
  have m: "(0.01 :: real) < 1 / 2" "(1 / 2 :: real) < 0.99" by simp_all
  have n: "\<forall>n \<in> set (ndims_params ex_uniform). n = 0" by (simp add: ex_uniform_def)
  have gl: "logcdf ex_uniform 1 = Inr (ex_uniform_logcdf 1)"
    and gu: "logcdf ex_uniform 2 = Inr (ex_uniform_logcdf 2)"
    by (simp_all add: ex_uniform_def)
  have run: "find_optim_prior (ex_env [1 / 2, 5 / 2] True) ex_uniform 1 2 0 (1 / 2) None ex_state
               = (fst run_ok, snd run_ok)"
    by (simp add: run_ok_def)
  have fx: "[] = (case None of None \<Rightarrow> [] | Some fp \<Rightarrow> heap ex_state fp)" by simp
  have c: "\<exists>k \<in> set (dict_keys (heap ex_state 0)). k \<notin> set (dict_keys ([] :: real dict))"
    by (auto simp: ex_state_def dict_keys_def)
  from residual_equation [OF m n gl gu run fx, unfolded if_P [OF c]]
  obtain residual x0 j where
    call: "filter is_solver_call (new_events ex_state (snd run_ok)) =
             [Least_squares_call residual x0 j]"
    and val: "\<And>x. length x = length (heap ex_state 0) \<Longrightarrow>
      residual x =
        Inr (exp (ex_uniform_logcdf 2 (assignment (heap ex_state 0) x (map_option (heap ex_state) None)))
             - exp (ex_uniform_logcdf 1 (assignment (heap ex_state 0) x (map_option (heap ex_state) None)))
             - 1 / 2)"
    by blast
  have "residual [1 / 2, 5 / 2] = Inr 0"
    using val [of "[1 / 2, 5 / 2]"]
    by (simp add: ex_state_def assignment_def dict_keys_def ex_uniform_logcdf_def)
  moreover have "residual [0, 3] = Inr (- 1 / 6)"
    using val [of "[0, 3]"]
    by (simp add: ex_state_def assignment_def dict_keys_def ex_uniform_logcdf_def)
  ultimately have A: "\<exists>residual x0 j.
      filter is_solver_call (new_events ex_state (snd run_ok)) =
        [Least_squares_call residual x0 j] \<and>
      residual [1 / 2, 5 / 2] = Inr 0 \<and> residual [0, 3] = Inr (- 1 / 6)"
    using call by blast
  have run2: "find_optim_prior (ex_env [7 / 2] True) ex_uniform 1 2 0 (1 / 2) (Some 1)
                ex_state_all_fixed = (fst run_all_fixed, snd run_all_fixed)"
    by (simp add: run_all_fixed_def)
  have fx2: "heap ex_state_all_fixed 1 =
               (case Some 1 of None \<Rightarrow> [] | Some fp \<Rightarrow> heap ex_state_all_fixed fp)"
    by simp
  have c2: "\<not> (\<exists>k \<in> set (dict_keys (heap ex_state_all_fixed 0)).
                 k \<notin> set (dict_keys (heap ex_state_all_fixed 1)))"
    by (simp add: ex_state_all_fixed_def dict_keys_def)
  note B = residual_equation [OF m n gl gu run2 fx2, unfolded if_not_P [OF c2]]
  from A B m gl gu show ?thesis by (simp add: ex_uniform_def)
qed

section \<open>The tolerance check\<close>

text \<open>C2. When the solver call of a run returned a successful result, the run returns
  the address of a new dictionary, and that dictionary is the merged parameter set:
  the keys of \<open>init_guess\<close> bound to the solver's vector, updated with \<open>fixed_params\<close>.
  The warnings the run emitted are exactly: one warning (carrying the achieved mass,
  the bounds and the requested mass) if \<open>\<bar>achieved - mass\<bar> \<ge> 0.01\<close>, and none
  otherwise, where the achieved mass is \<open>exp (logCDF(upper)) - exp (logCDF(lower))\<close> at
  the merged parameter set. The warning therefore never replaces the result.\<close>

theorem tolerance_warning:
  assumes "find_optim_prior E pm_dist lower upper init_guess mass fixed_params s = (r, s')"
    and "Least_squares_call f x0 j \<in> set (new_events s s')"
    and "least_squares E f x0 j = Inr opt"
    and "opt_success opt"
    and "logcdf pm_dist upper = Inr gu"
    and "logcdf pm_dist lower = Inr gl"
    and "\<forall>fp. fixed_params = Some fp \<longrightarrow> fp < next_addr s"
    and "opt_params =
           (case fixed_params of
              None \<Rightarrow> dict_comp (zip (dict_keys (heap s init_guess)) (opt_x opt))
            | Some fp \<Rightarrow> dict_update (dict_comp (zip (dict_keys (heap s init_guess)) (opt_x opt)))
                          (heap s fp))"
    and "mass_in_interval = exp (gu (map_of opt_params)) - exp (gl (map_of opt_params))"
  shows "r = Inr (next_addr s) \<and>
         heap s' (next_addr s) = opt_params \<and>
         filter is_warning (new_events s s') =
           (if \<bar>mass_in_interval - mass\<bar> \<ge> 0.01
            then [Warn mass_in_interval lower upper mass] else [])"
  using assms
  by (auto simp: path_simps split: if_splits sum.splits option.splits prod.splits)

theorem tolerance_warning_witness:
  "Least_squares_call (ex_residual ex_params) [0, 3] (Jac_str ''2-point'')
     \<in> set (new_events ex_state (snd run_ok)) \<and>
   least_squares (ex_env [1 / 2, 5 / 2] True) (ex_residual ex_params) [0, 3] (Jac_str ''2-point'')
     = Inr \<lparr>opt_x = [1 / 2, 5 / 2], opt_success = True\<rparr> \<and>
   logcdf ex_uniform 2 = Inr (ex_uniform_logcdf 2) \<and>
   logcdf ex_uniform 1 = Inr (ex_uniform_logcdf 1) \<and>
   fst run_ok = Inr 2 \<and>
   heap (snd run_ok) 2 = [(''lower'', 1 / 2), (''upper'', 5 / 2)] \<and>
   filter is_warning (new_events ex_state (snd run_ok)) = [] \<and>
   Least_squares_call (ex_residual ex_params) [0, 3] (Jac_str ''2-point'')
     \<in> set (new_events ex_state (snd run_warn)) \<and>
   least_squares (ex_env [0, 3] True) (ex_residual ex_params) [0, 3] (Jac_str ''2-point'')
     = Inr \<lparr>opt_x = [0, 3], opt_success = True\<rparr> \<and>
   fst run_warn = Inr 2 \<and>
   heap (snd run_warn) 2 = [(''lower'', 0), (''upper'', 3)] \<and>
   filter is_warning (new_events ex_state (snd run_warn)) = [Warn (1 / 3) 1 2 (1 / 2)] \<and>
   Least_squares_call (ex_residual ex_params_fixed) [0, 3] (Jac_str ''2-point'')
     \<in> set (new_events ex_state (snd run_fixed)) \<and>
   least_squares (ex_env [1 / 2, 7 / 2] True) (ex_residual ex_params_fixed) [0, 3]
     (Jac_str ''2-point'') = Inr \<lparr>opt_x = [1 / 2, 7 / 2], opt_success = True\<rparr> \<and>
   heap ex_state 1 = [(''upper'', 5 / 2)] \<and>
   fst run_fixed = Inr 2 \<and>
   heap (snd run_fixed) 2 = [(''lower'', 1 / 2), (''upper'', 5 / 2)] \<and>
   filter is_warning (new_events ex_state (snd run_fixed)) = []"
proof -
  have gl: "logcdf ex_uniform 1 = Inr (ex_uniform_logcdf 1)"
    and gu: "logcdf ex_uniform 2 = Inr (ex_uniform_logcdf 2)"
    by (simp_all add: ex_uniform_def)
  have n: "next_addr ex_state = 2" by (simp add: ex_state_def)
  have v0: "\<forall>fp. None = Some fp \<longrightarrow> fp < next_addr ex_state" by simp
  have v1: "\<forall>fp. Some 1 = Some fp \<longrightarrow> fp < next_addr ex_state" by (simp add: ex_state_def)
  have h1: "heap ex_state 1 = [(''upper'', 5 / 2)]" by (simp add: ex_state_def)
  \<comment> \<open>the solver answers the exact solution\<close>
  have run1: "find_optim_prior (ex_env [1 / 2, 5 / 2] True) ex_uniform 1 2 0 (1 / 2) None ex_state
                = (fst run_ok, snd run_ok)"
    by (simp add: run_ok_def)
  have call1: "Least_squares_call (ex_residual ex_params) [0, 3] (Jac_str ''2-point'')
                 \<in> set (new_events ex_state (snd run_ok))"
    by (simp add: run_ok_eval new_events_def ex_state_def)
  have ls1: "least_squares (ex_env [1 / 2, 5 / 2] True) (ex_residual ex_params) [0, 3]
               (Jac_str ''2-point'') = Inr \<lparr>opt_x = [1 / 2, 5 / 2], opt_success = True\<rparr>"
    by (simp add: ex_env_def)
  have ok1: "opt_success \<lparr>opt_x = [1 / 2, 5 / 2], opt_success = True\<rparr>" by simp
  have p1: "[(''lower'', 1 / 2), (''upper'', 5 / 2)] =
              (case None of
                 None \<Rightarrow> dict_comp (zip (dict_keys (heap ex_state 0))
                           (opt_x \<lparr>opt_x = [1 / 2, 5 / 2], opt_success = True\<rparr>))
               | Some fp \<Rightarrow> dict_update (dict_comp (zip (dict_keys (heap ex_state 0))
                               (opt_x \<lparr>opt_x = [1 / 2, 5 / 2], opt_success = True\<rparr>)))
                             (heap ex_state fp))"
    by (simp add: ex_state_def dict_comp_def dict_keys_def)
  have m1: "(1 / 2 :: real) =
              exp (ex_uniform_logcdf 2 (map_of [(''lower'', 1 / 2), (''upper'', 5 / 2)]))
              - exp (ex_uniform_logcdf 1 (map_of [(''lower'', 1 / 2), (''upper'', 5 / 2)]))"
    by (simp add: ex_uniform_logcdf_def)
  from tolerance_warning [OF run1 call1 ls1 ok1 gu gl v0 p1 m1]
  have A: "fst run_ok = Inr 2 \<and>
           heap (snd run_ok) 2 = [(''lower'', 1 / 2), (''upper'', 5 / 2)] \<and>
           filter is_warning (new_events ex_state (snd run_ok)) = []"
    by (simp add: n)
  \<comment> \<open>the solver answers the initial guess\<close>
  have run2: "find_optim_prior (ex_env [0, 3] True) ex_uniform 1 2 0 (1 / 2) None ex_state
                = (fst run_warn, snd run_warn)"
    by (simp add: run_warn_def)
  have call2: "Least_squares_call (ex_residual ex_params) [0, 3] (Jac_str ''2-point'')
                 \<in> set (new_events ex_state (snd run_warn))"
    by (simp add: run_warn_eval new_events_def ex_state_def)
  have ls2: "least_squares (ex_env [0, 3] True) (ex_residual ex_params) [0, 3]
               (Jac_str ''2-point'') = Inr \<lparr>opt_x = [0, 3], opt_success = True\<rparr>"
    by (simp add: ex_env_def)
  have ok2: "opt_success \<lparr>opt_x = [0, 3], opt_success = True\<rparr>" by simp
  have p2: "[(''lower'', 0), (''upper'', 3)] =
              (case None of
                 None \<Rightarrow> dict_comp (zip (dict_keys (heap ex_state 0))
                           (opt_x \<lparr>opt_x = [0, 3], opt_success = True\<rparr>))
               | Some fp \<Rightarrow> dict_update (dict_comp (zip (dict_keys (heap ex_state 0))
                               (opt_x \<lparr>opt_x = [0, 3], opt_success = True\<rparr>)))
                             (heap ex_state fp))"
    by (simp add: ex_state_def dict_comp_def dict_keys_def)
  have m2: "(1 / 3 :: real) =
              exp (ex_uniform_logcdf 2 (map_of [(''lower'', 0), (''upper'', 3)]))
              - exp (ex_uniform_logcdf 1 (map_of [(''lower'', 0), (''upper'', 3)]))"
    by (simp add: ex_uniform_logcdf_def)
  from tolerance_warning [OF run2 call2 ls2 ok2 gu gl v0 p2 m2]
  have B: "fst run_warn = Inr 2 \<and>
           heap (snd run_warn) 2 = [(''lower'', 0), (''upper'', 3)] \<and>
           filter is_warning (new_events ex_state (snd run_warn)) = [Warn (1 / 3) 1 2 (1 / 2)]"
    by (simp add: n)
  \<comment> \<open>a fixed parameter replaces the solver's component\<close>
  have run3: "find_optim_prior (ex_env [1 / 2, 7 / 2] True) ex_uniform 1 2 0 (1 / 2) (Some 1)
                ex_state = (fst run_fixed, snd run_fixed)"
    by (simp add: run_fixed_def)
  have call3: "Least_squares_call (ex_residual ex_params_fixed) [0, 3] (Jac_str ''2-point'')
                 \<in> set (new_events ex_state (snd run_fixed))"
    by (simp add: run_fixed_eval new_events_def ex_state_def)
  have ls3: "least_squares (ex_env [1 / 2, 7 / 2] True) (ex_residual ex_params_fixed) [0, 3]
               (Jac_str ''2-point'') = Inr \<lparr>opt_x = [1 / 2, 7 / 2], opt_success = True\<rparr>"
    by (simp add: ex_env_def)
  have ok3: "opt_success \<lparr>opt_x = [1 / 2, 7 / 2], opt_success = True\<rparr>" by simp
  have p3: "[(''lower'', 1 / 2), (''upper'', 5 / 2)] =
              (case Some 1 of
                 None \<Rightarrow> dict_comp (zip (dict_keys (heap ex_state 0))
                           (opt_x \<lparr>opt_x = [1 / 2, 7 / 2], opt_success = True\<rparr>))
               | Some fp \<Rightarrow> dict_update (dict_comp (zip (dict_keys (heap ex_state 0))
                               (opt_x \<lparr>opt_x = [1 / 2, 7 / 2], opt_success = True\<rparr>)))
                             (heap ex_state fp))"
    by (simp add: ex_state_def dict_comp_def dict_update_def dict_keys_def)
  from tolerance_warning [OF run3 call3 ls3 ok3 gu gl v1 p3 m1]
  have C: "fst run_fixed = Inr 2 \<and>
           heap (snd run_fixed) 2 = [(''lower'', 1 / 2), (''upper'', 5 / 2)] \<and>
           filter is_warning (new_events ex_state (snd run_fixed)) = []"
    by (simp add: n)
  from A B C call1 ls1 call2 ls2 call3 ls3 gu gl h1 show ?thesis by simp
qed

section \<open>Preconditions\<close>

text \<open>C3. A mass that is not strictly between 0.01 and 0.99 (so also 0.01, 0.99, 0 and
  1 themselves) makes \<open>find_optim_prior\<close> raise AssertionError at once: the state is
  the one it was called in, so nothing was built, differentiated or solved and the
  trace has no new event.\<close>

theorem mass_outside_raises_first:
  "\<not> (0.01 < mass \<and> mass < 0.99) \<Longrightarrow>
   find_optim_prior E pm_dist lower upper init_guess mass fixed_params s =
     (Inl (Exn AssertionError ''''), s)"
  by (simp add: find_optim_prior_def)

theorem mass_outside_raises_first_witness:
  "find_optim_prior (ex_env [] True) ex_uniform 1 2 0 0.01 None ex_state
     = (Inl (Exn AssertionError ''''), ex_state) \<and>
   find_optim_prior (ex_env [] True) ex_uniform 1 2 0 0.99 None ex_state
     = (Inl (Exn AssertionError ''''), ex_state) \<and>
   find_optim_prior (ex_env [] True) ex_uniform 1 2 0 0 None ex_state
     = (Inl (Exn AssertionError ''''), ex_state) \<and>
   find_optim_prior (ex_env [] True) ex_uniform 1 2 0 1 None ex_state
     = (Inl (Exn AssertionError ''''), ex_state)"
  using mass_outside_raises_first [of "0.01" "ex_env [] True" ex_uniform 1 2 0 None ex_state]
        mass_outside_raises_first [of "0.99" "ex_env [] True" ex_uniform 1 2 0 None ex_state]
        mass_outside_raises_first [of 0 "ex_env [] True" ex_uniform 1 2 0 None ex_state]
        mass_outside_raises_first [of 1 "ex_env [] True" ex_uniform 1 2 0 None ex_state]
  by simp

section \<open>A family without a log-CDF\<close>

text \<open>C4, as the claim states it, fails: a log-CDF that raises an exception other than
  AttributeError at the lower bound is not surfaced as the capability error. Here the
  family raises TypeError, and the call raises that TypeError.\<close>

theorem logcdf_type_error_not_capability_error:
  "(0.01 :: real) < 1 / 2 \<and> (1 / 2 :: real) < 0.99 \<and> ndims_params ex_type_error = [0, 0] \<and>
   logcdf ex_type_error 1 = Inl (Exn TypeError ''unsupported operand'') \<and>
   fst run_type_error = Inl (Exn TypeError ''unsupported operand'') \<and>
   fst run_type_error \<noteq> Inl (Exn AttributeError (msg_no_logcdf ex_type_error))"
  by (simp add: run_type_error_eval ex_type_error_def)

text \<open>C4, amended. With a valid mass and scalar parameters, let \<open>e\<close> be the exception
  that building the log-CDF raises at the lower bound, or at the upper bound after the
  lower bound succeeded. If \<open>e\<close> is an AttributeError the call raises the AttributeError
  whose message names the family (\<open>str pm_dist\<close> occurs in it); any other exception is
  raised unchanged. In both cases the solver is not invoked.\<close>

theorem logcdf_failure_surfaced:
  assumes "0.01 < mass" "mass < 0.99" "\<forall>n \<in> set (ndims_params pm_dist). n = 0"
    and "logcdf pm_dist lower = Inl e \<or>
         (\<exists>g. logcdf pm_dist lower = Inr g) \<and> logcdf pm_dist upper = Inl e"
    and "find_optim_prior E pm_dist lower upper init_guess mass fixed_params s = (r, s')"
  shows "r = Inl (if cls e = AttributeError then Exn AttributeError (msg_no_logcdf pm_dist) else e) \<and>
         sublist (str pm_dist) (msg_no_logcdf pm_dist) \<and>
         filter is_solver_call (new_events s s') = []"
proof -
  have "sublist (str pm_dist) (msg_no_logcdf pm_dist)"
    unfolding msg_no_logcdf_def by (rule sublist_appendI)
  with assms show ?thesis
    by (auto simp: find_optim_prior_def emit_def floatX_def Let_def pm_logcdf_def
        new_events_def except_AttributeError_def split: if_splits sum.splits)
qed

theorem logcdf_failure_surfaced_witness:
  "(0.01 :: real) < 1 / 2 \<and> (1 / 2 :: real) < 0.99 \<and> ndims_params ex_no_logcdf = [0, 0] \<and>
   logcdf ex_no_logcdf 1 = Inl (Exn AttributeError ''no attribute logcdf'') \<and>
   fst run_no_logcdf = Inl (Exn AttributeError (msg_no_logcdf ex_no_logcdf)) \<and>
   sublist ''Wald'' (msg_no_logcdf ex_no_logcdf) \<and>
   filter is_solver_call (new_events ex_state (snd run_no_logcdf)) = []"
proof -
  have m: "(0.01 :: real) < 1 / 2" "(1 / 2 :: real) < 0.99" by simp_all
  have n: "\<forall>n \<in> set (ndims_params ex_no_logcdf). n = 0" by (simp add: ex_no_logcdf_def)
  have e: "logcdf ex_no_logcdf 1 = Inl (Exn AttributeError ''no attribute logcdf'') \<or>
           (\<exists>g. logcdf ex_no_logcdf 1 = Inr g) \<and>
           logcdf ex_no_logcdf 2 = Inl (Exn AttributeError ''no attribute logcdf'')"
    by (simp add: ex_no_logcdf_def)
  have run: "find_optim_prior (ex_env [0, 3] True) ex_no_logcdf 1 2 0 (1 / 2) None ex_state
               = (fst run_no_logcdf, snd run_no_logcdf)"
    by (simp add: run_no_logcdf_def)
  from logcdf_failure_surfaced [OF m n e run] show ?thesis
    by (simp add: ex_no_logcdf_def)
qed

section \<open>Differentiation\<close>

text \<open>C5. When the residual graph \<open>cdf_error\<close> is built and compiled (as
  \<open>cdf_error_fn\<close>) and \<open>pm.gradient\<close> raises any exception on it, the call goes on: the
  next event after the gradient attempt is the one solver invocation, on the residual,
  the initial guess and the string \<open>"2-point"\<close> as Jacobian. The outcome of the call
  is then the solver's: the solver's own exception, the "optimization failed" error,
  or the result.\<close>

theorem gradient_failure_falls_back:
  assumes "0.01 < mass" "mass < 0.99" "\<forall>n \<in> set (ndims_params pm_dist). n = 0"
    and "dist' = params_to_optim (heap s init_guess) (map_option (heap s) fixed_params)"
    and "pm_logcdf pm_dist dist' lower = Inr logcdf_lower"
    and "pm_logcdf pm_dist dist' upper = Inr logcdf_upper"
    and "aesara_function (cdf_error logcdf_upper logcdf_lower mass) = Inr cdf_error_fn"
    and "pm_gradient E (cdf_error logcdf_upper logcdf_lower mass) = Inl e"
    and "x0 = dict_values (heap s init_guess)"
    and "find_optim_prior E pm_dist lower upper init_guess mass fixed_params s = (r, s')"
  shows "(\<exists>rest. new_events s s' =
            [Dist_call dist', Logcdf_call lower, Logcdf_call upper, Function_call, Gradient_call,
             Least_squares_call cdf_error_fn x0 (Jac_str ''2-point'')]
            @ rest \<and> filter is_solver_call rest = []) \<and>
         (case least_squares E cdf_error_fn x0 (Jac_str ''2-point'') of
            Inl e' \<Rightarrow> r = Inl e'
          | Inr opt \<Rightarrow>
              if opt_success opt then r = Inr (next_addr s)
              else r = Inl (Exn ValueError ''Optimization of parameters failed.''))"
  using assms
  by (auto simp: path_simps split: if_splits sum.splits option.splits prod.splits)

theorem gradient_failure_falls_back_witness:
  "(0.01 :: real) < 1 / 2 \<and> (1 / 2 :: real) < 0.99 \<and> ndims_params ex_uniform = [0, 0] \<and>
   ex_params = params_to_optim (heap ex_state 0) (map_option (heap ex_state) None) \<and>
   pm_logcdf ex_uniform ex_params 1 = Inr (G_logcdf (ex_uniform_logcdf 1) ex_params) \<and>
   pm_logcdf ex_uniform ex_params 2 = Inr (G_logcdf (ex_uniform_logcdf 2) ex_params) \<and>
   aesara_function (ex_cdf_error ex_params) = Inr (ex_residual ex_params) \<and>
   pm_gradient (ex_env [1 / 2, 5 / 2] True) (ex_cdf_error ex_params)
     = Inl (Exn NotImplementedError ''grad'') \<and>
   (\<exists>rest. new_events ex_state (snd run_ok) =
      [Dist_call ex_params, Logcdf_call 1, Logcdf_call 2, Function_call, Gradient_call,
       Least_squares_call (ex_residual ex_params) [0, 3] (Jac_str ''2-point'')] @ rest \<and>
      filter is_solver_call rest = []) \<and>
   fst run_ok = Inr 2"
proof -
  have m: "(0.01 :: real) < 1 / 2" "(1 / 2 :: real) < 0.99" by simp_all
  have n: "\<forall>n \<in> set (ndims_params ex_uniform). n = 0" by (simp add: ex_uniform_def)
  have d: "ex_params = params_to_optim (heap ex_state 0) (map_option (heap ex_state) None)"
    by (simp add: ex_state_def ex_params_eval)
  have ll: "pm_logcdf ex_uniform ex_params 1 = Inr (G_logcdf (ex_uniform_logcdf 1) ex_params)"
    and lu: "pm_logcdf ex_uniform ex_params 2 = Inr (G_logcdf (ex_uniform_logcdf 2) ex_params)"
    by (simp_all add: pm_logcdf_def ex_uniform_def)
  have c: "aesara_function (cdf_error (G_logcdf (ex_uniform_logcdf 2) ex_params)
                                      (G_logcdf (ex_uniform_logcdf 1) ex_params) (1 / 2))
           = Inr (ex_residual ex_params)"
    using ex_compiled(1) by (simp add: ex_cdf_error_def)
  have g: "pm_gradient (ex_env [1 / 2, 5 / 2] True)
             (cdf_error (G_logcdf (ex_uniform_logcdf 2) ex_params)
                        (G_logcdf (ex_uniform_logcdf 1) ex_params) (1 / 2))
           = Inl (Exn NotImplementedError ''grad'')"
    by (simp add: ex_env_def)
  have x0: "[0, 3] = dict_values (heap ex_state 0)"
    by (simp add: ex_state_def dict_values_def)
  have run: "find_optim_prior (ex_env [1 / 2, 5 / 2] True) ex_uniform 1 2 0 (1 / 2) None ex_state
               = (fst run_ok, snd run_ok)"
    by (simp add: run_ok_def)
  have n2: "next_addr ex_state = 2" by (simp add: ex_state_def)
  have ls: "least_squares (ex_env [1 / 2, 5 / 2] True) (ex_residual ex_params) [0, 3]
               (Jac_str ''2-point'') = Inr \<lparr>opt_x = [1 / 2, 5 / 2], opt_success = True\<rparr>"
    by (simp add: ex_env_def)
  from gradient_failure_falls_back [OF m n d ll lu c g x0 run]
  have "(\<exists>rest. new_events ex_state (snd run_ok) =
      [Dist_call ex_params, Logcdf_call 1, Logcdf_call 2, Function_call, Gradient_call,
       Least_squares_call (ex_residual ex_params) [0, 3] (Jac_str ''2-point'')] @ rest \<and>
      filter is_solver_call rest = []) \<and> fst run_ok = Inr 2"
    by (simp add: ls n2)
  with m d ll lu c g show ?thesis
    by (simp add: ex_cdf_error_def ex_uniform_def)
qed

section \<open>Non-convergence\<close>

text \<open>C6. When the solver call of a run returned a result whose success flag is
  false, the run raises ValueError "Optimization of parameters failed.", it has
  invoked the solver exactly once (no retry), and it has created no dictionary: the
  store is the one it was called in.\<close>

theorem not_converged_raises:
  assumes "find_optim_prior E pm_dist lower upper init_guess mass fixed_params s = (r, s')"
    and "Least_squares_call f x0 j \<in> set (new_events s s')"
    and "least_squares E f x0 j = Inr opt"
    and "\<not> opt_success opt"
  shows "r = Inl (Exn ValueError ''Optimization of parameters failed.'') \<and>
         filter is_solver_call (new_events s s') = [Least_squares_call f x0 j] \<and>
         heap s' = heap s \<and> next_addr s' = next_addr s"
  using assms
  by (auto simp: path_simps
      split: if_splits sum.splits option.splits prod.splits)

theorem not_converged_raises_witness:
  "Least_squares_call (ex_residual ex_params) [0, 3] (Jac_str ''2-point'')
     \<in> set (new_events ex_state (snd run_failed)) \<and>
   least_squares (ex_env [0, 3] False) (ex_residual ex_params) [0, 3] (Jac_str ''2-point'')
     = Inr \<lparr>opt_x = [0, 3], opt_success = False\<rparr> \<and>
   fst run_failed = Inl (Exn ValueError ''Optimization of parameters failed.'') \<and>
   filter is_solver_call (new_events ex_state (snd run_failed)) =
     [Least_squares_call (ex_residual ex_params) [0, 3] (Jac_str ''2-point'')] \<and>
   heap (snd run_failed) = heap ex_state \<and> next_addr (snd run_failed) = next_addr ex_state"
proof -
  have run: "find_optim_prior (ex_env [0, 3] False) ex_uniform 1 2 0 (1 / 2) None ex_state
               = (fst run_failed, snd run_failed)"
    by (simp add: run_failed_def)
  have call: "Least_squares_call (ex_residual ex_params) [0, 3] (Jac_str ''2-point'')
                \<in> set (new_events ex_state (snd run_failed))"
    by (simp add: run_failed_eval new_events_def ex_state_def)
  have ls: "least_squares (ex_env [0, 3] False) (ex_residual ex_params) [0, 3]
              (Jac_str ''2-point'') = Inr \<lparr>opt_x = [0, 3], opt_success = False\<rparr>"
    by (simp add: ex_env_def)
  have no: "\<not> opt_success \<lparr>opt_x = [0, 3], opt_success = False\<rparr>" by simp
  from not_converged_raises [OF run call ls no] call ls show ?thesis by simp
qed

section \<open>The returned map\<close>

text \<open>C7, as the claim states it, fails: when a key of \<open>init_guess\<close> is also a key of
  \<open>fixed_params\<close>, the returned map holds the fixed value and not the component of the
  solver's vector. Here \<open>"upper"\<close> is the second key of \<open>init_guess\<close>, the solver
  answers 3.5 as second component, and the returned map holds the fixed 2.5.\<close>

theorem overlapping_key_not_solver_value:
  "fst run_fixed = Inr 2 \<and>
   least_squares (ex_env [1 / 2, 7 / 2] True) (ex_residual ex_params_fixed) [0, 3]
     (Jac_str ''2-point'') = Inr \<lparr>opt_x = [1 / 2, 7 / 2], opt_success = True\<rparr> \<and>
   dict_keys (heap ex_state 0) ! 1 = ''upper'' \<and>
   map_of (heap (snd run_fixed) 2) ''upper'' = Some (5 / 2) \<and>
   map_of (heap (snd run_fixed) 2) (dict_keys (heap ex_state 0) ! 1)
     \<noteq> Some ([1 / 2, 7 / 2] ! 1)"
  by (simp add: run_fixed_eval ex_env_def ex_state_def dict_keys_def)

text \<open>C7, amended. On success, with dictionaries whose keys are distinct and a solver
  vector that has one component per key of \<open>init_guess\<close>: the key set of the returned
  map is the union of the keys of \<open>init_guess\<close> and of \<open>fixed_params\<close>; every key of
  \<open>init_guess\<close> that is not a key of \<open>fixed_params\<close> maps to the component of the
  solver's vector at its position; and every entry of \<open>fixed_params\<close> is in the result
  with the caller's value.\<close>

theorem returned_map:
  assumes "find_optim_prior E pm_dist lower upper init_guess mass fixed_params s = (Inr a, s')"
    and "Least_squares_call f x0 j \<in> set (new_events s s')"
    and "least_squares E f x0 j = Inr opt"
    and "length (opt_x opt) = length (heap s init_guess)"
    and "distinct (dict_keys (heap s init_guess))"
    and "fixed = (case fixed_params of None \<Rightarrow> [] | Some fp \<Rightarrow> heap s fp)"
    and "distinct (dict_keys fixed)"
    and "\<forall>fp. fixed_params = Some fp \<longrightarrow> fp < next_addr s"
  shows "set (dict_keys (heap s' a)) = set (dict_keys (heap s init_guess)) \<union> set (dict_keys fixed) \<and>
         (\<forall>i < length (heap s init_guess).
            dict_keys (heap s init_guess) ! i \<notin> set (dict_keys fixed) \<longrightarrow>
            map_of (heap s' a) (dict_keys (heap s init_guess) ! i) = Some (opt_x opt ! i)) \<and>
         (\<forall>(k, v) \<in> set fixed. map_of (heap s' a) k = Some v)"
proof -
  let ?ks = "dict_keys (heap s init_guess)"
  let ?c = "dict_comp (zip ?ks (opt_x opt))"
  have len: "length ?ks = length (opt_x opt)"
    using assms(4) by (simp add: dict_keys_def)
  have res: "heap s' a = dict_update ?c fixed"
    using result_dict [OF assms(1-3) assms(8)] assms(6)
    by (auto simp: dict_update_def split: option.splits)
  have m: "map_of (heap s' a) = (Map.empty(?ks [\<mapsto>] opt_x opt))(dict_keys fixed [\<mapsto>] dict_values fixed)"
    by (simp add: res map_of_dict_update map_of_dict_comp [OF len])
  have keys: "set (dict_keys (heap s' a)) = set ?ks \<union> set (dict_keys fixed)"
    by (simp add: res keys_dict_update keys_dict_comp [OF len])
  have free: "map_of (heap s' a) (?ks ! i) = Some (opt_x opt ! i)"
    if "i < length (heap s init_guess)" "?ks ! i \<notin> set (dict_keys fixed)" for i
  proof -
    have "map_of (heap s' a) (?ks ! i) = (Map.empty(?ks [\<mapsto>] opt_x opt)) (?ks ! i)"
      using that(2) by (simp add: m)
    also have "\<dots> = Some (opt_x opt ! i)"
      using that(1) assms(5) len by (intro upds_nth) (simp_all add: dict_keys_def)
    finally show ?thesis .
  qed
  have fixed: "map_of (heap s' a) k = Some v" if "(k, v) \<in> set fixed" for k v
    using upds_entry [OF _ that] assms(7) by (simp add: m dict_keys_def dict_values_def)
  from keys free fixed show ?thesis by blast
qed

theorem returned_map_witness:
  "fst run_fixed = Inr 2 \<and>
   Least_squares_call (ex_residual ex_params_fixed) [0, 3] (Jac_str ''2-point'')
     \<in> set (new_events ex_state (snd run_fixed)) \<and>
   least_squares (ex_env [1 / 2, 7 / 2] True) (ex_residual ex_params_fixed) [0, 3]
     (Jac_str ''2-point'') = Inr \<lparr>opt_x = [1 / 2, 7 / 2], opt_success = True\<rparr> \<and>
   heap ex_state 0 = [(''lower'', 0), (''upper'', 3)] \<and>
   heap ex_state 1 = [(''upper'', 5 / 2)] \<and> 1 < next_addr ex_state \<and>
   set (dict_keys (heap (snd run_fixed) 2)) = {''lower'', ''upper''} \<and>
   map_of (heap (snd run_fixed) 2) ''lower'' = Some (1 / 2) \<and>
   map_of (heap (snd run_fixed) 2) ''upper'' = Some (5 / 2)"
proof -
  have r: "fst run_fixed = Inr 2" by (simp add: run_fixed_eval)
  have run: "find_optim_prior (ex_env [1 / 2, 7 / 2] True) ex_uniform 1 2 0 (1 / 2) (Some 1)
               ex_state = (Inr 2, snd run_fixed)"
    using r by (simp add: run_fixed_def prod_eq_iff)
  have call: "Least_squares_call (ex_residual ex_params_fixed) [0, 3] (Jac_str ''2-point'')
                \<in> set (new_events ex_state (snd run_fixed))"
    by (simp add: run_fixed_eval new_events_def ex_state_def)
  have ls: "least_squares (ex_env [1 / 2, 7 / 2] True) (ex_residual ex_params_fixed) [0, 3]
              (Jac_str ''2-point'') = Inr \<lparr>opt_x = [1 / 2, 7 / 2], opt_success = True\<rparr>"
    by (simp add: ex_env_def)
  have h: "heap ex_state 0 = [(''lower'', 0), (''upper'', 3)]"
    "heap ex_state 1 = [(''upper'', 5 / 2)]" "1 < next_addr ex_state"
    by (simp_all add: ex_state_def)
  have len: "length (opt_x \<lparr>opt_x = [1 / 2, 7 / 2], opt_success = True\<rparr>)
               = length (heap ex_state 0)"
    by (simp add: h)
  have d0: "distinct (dict_keys (heap ex_state 0))" by (simp add: h dict_keys_def)
  have fx: "[(''upper'', 5 / 2)] = (case Some 1 of None \<Rightarrow> [] | Some fp \<Rightarrow> heap ex_state fp)"
    by (simp add: ex_state_def)
  have d1: "distinct (dict_keys [(''upper'', 5 / 2 :: real)])" by (simp add: dict_keys_def)
  have v: "\<forall>fp. Some 1 = Some fp \<longrightarrow> fp < next_addr ex_state" by (simp add: ex_state_def)
  note R = returned_map [OF run call ls len d0 fx d1 v]
  from R have K: "set (dict_keys (heap (snd run_fixed) 2)) = {''lower'', ''upper''}"
    by (auto simp: h dict_keys_def)
  from R have "0 < length (heap ex_state 0) \<longrightarrow>
      dict_keys (heap ex_state 0) ! 0 \<notin> set (dict_keys [(''upper'', 5 / 2 :: real)]) \<longrightarrow>
      map_of (heap (snd run_fixed) 2) (dict_keys (heap ex_state 0) ! 0)
        = Some (opt_x \<lparr>opt_x = [1 / 2, 7 / 2], opt_success = True\<rparr> ! 0)"
    by blast
  then have F: "map_of (heap (snd run_fixed) 2) ''lower'' = Some (1 / 2)"
    by (simp add: h dict_keys_def)
  from R have X: "map_of (heap (snd run_fixed) 2) ''upper'' = Some (5 / 2)"
    by simp
  from r call ls h K F X show ?thesis by simp
qed

section \<open>Non-scalar parameters\<close>

text \<open>C8. With a valid mass, a family that declares a parameter whose number of
  dimensions is not 0 makes \<open>find_optim_prior\<close> raise NotImplementedError with the
  "non-scalar parameters" message, in the state it was called in: before any call to
  the family, the engine or the solver.\<close>

theorem non_scalar_raises_first:
  "0.01 < mass \<Longrightarrow> mass < 0.99 \<Longrightarrow> d \<in> set (ndims_params pm_dist) \<Longrightarrow> d \<noteq> 0 \<Longrightarrow>
   find_optim_prior E pm_dist lower upper init_guess mass fixed_params s =
     (Inl (Exn NotImplementedError msg_non_scalar), s)"
  by (auto simp add: find_optim_prior_def)

theorem non_scalar_raises_first_witness:
  "(0.01 :: real) < 0.95 \<and> (0.95 :: real) < 0.99 \<and>
   (2 :: int) \<in> set (ndims_params ex_mvnormal) \<and>
   find_optim_prior (ex_env [] True) ex_mvnormal 1 2 0 0.95 None ex_state =
     (Inl (Exn NotImplementedError msg_non_scalar), ex_state)"
  using non_scalar_raises_first [of "0.95" 2 ex_mvnormal "ex_env [] True" 1 2 0 None ex_state]
  by (simp add: ex_mvnormal_def)

section \<open>A parameter both free and fixed\<close>

text \<open>C9, as the claim states it, fails: when every key of \<open>init_guess\<close> is also a key
  of \<open>fixed_params\<close>, no component of \<open>dist_params\<close> is left in the residual graph, and
  compiling the residual raises UnusedInputError. Here \<open>"upper"\<close> is the only key of
  \<open>init_guess\<close> and is fixed to 2.5: the call raises, does not invoke the solver and
  returns no map.\<close>

theorem all_keys_fixed_raises:
  "heap ex_state_all_fixed 0 = [(''upper'', 3)] \<and>
   (''upper'', 5 / 2) \<in> set (heap ex_state_all_fixed 1) \<and>
   fst run_all_fixed = Inl (Exn UnusedInputError msg_unused_input) \<and>
   filter is_solver_call (new_events ex_state_all_fixed (snd run_all_fixed)) = [] \<and>
   heap (snd run_all_fixed) = heap ex_state_all_fixed \<and>
   next_addr (snd run_all_fixed) = next_addr ex_state_all_fixed"
  by (simp add: run_all_fixed_eval new_events_def ex_state_all_fixed_def)

text \<open>C9, amended. When \<open>fixed_params\<close> holds the entry \<open>(k, v)\<close>, \<open>k\<close> is also the key
  of \<open>init_guess\<close> at position \<open>i\<close>, and some key \<open>k'\<close> of \<open>init_guess\<close> is not a key of
  \<open>fixed_params\<close>: the distribution of the residual is built with the constant \<open>v\<close>
  for \<open>k\<close>; the residual handed to the solver does not change when the component \<open>i\<close>
  of its input changes; and a map that is returned holds \<open>v\<close> for \<open>k\<close>.\<close>

theorem fixed_value_wins:
  assumes "0.01 < mass" "mass < 0.99" "\<forall>n \<in> set (ndims_params pm_dist). n = 0"
    and "logcdf pm_dist lower = Inr gl"
    and "logcdf pm_dist upper = Inr gu"
    and "find_optim_prior E pm_dist lower upper init_guess mass (Some fp) s = (r, s')"
    and "fp < next_addr s"
    and "distinct (dict_keys (heap s fp))"
    and "(k, v) \<in> set (heap s fp)"
    and "i < length (heap s init_guess)"
    and "dict_keys (heap s init_guess) ! i = k"
    and "k' \<in> set (dict_keys (heap s init_guess))"
    and "k' \<notin> set (dict_keys (heap s fp))"
  shows "(\<exists>d rest. new_events s s' = Dist_call d # rest \<and> map_of d k = Some (Constant v)) \<and>
         (\<exists>residual x0 j.
            filter is_solver_call (new_events s s') = [Least_squares_call residual x0 j] \<and>
            (\<forall>x w. length x = length (heap s init_guess) \<longrightarrow> residual (x[i := w]) = residual x)) \<and>
         (\<forall>a. r = Inr a \<longrightarrow> map_of (heap s' a) k = Some v)"
proof -
  let ?ig = "heap s init_guess" and ?fixed = "heap s fp"
  let ?d = "params_to_optim ?ig (Some ?fixed)"
  let ?g = "cdf_error (G_logcdf gu ?d) (G_logcdf gl ?d) mass"
  have kin: "k \<in> set (dict_keys ?fixed)"
    using assms(9) by (force simp: dict_keys_def)
  \<comment> \<open>the distribution is built with the fixed value\<close>
  let ?e = "map (\<lambda>(k, v). (k, Constant v)) ?fixed"
  have "distinct (map fst ?e)"
    using assms(8) by (simp add: fst_map_Constant dict_keys_def)
  moreover have "(k, Constant v) \<in> set ?e"
    using assms(9) by force
  ultimately have "map_of ?d k = Some (Constant v)"
    by (simp add: params_to_optim_def Let_def map_of_dict_update dict_keys_def dict_values_def
        upds_entry del: map_map)
  with first_event [OF assms(1-3) assms(6)]
  have A: "\<exists>d rest. new_events s s' = Dist_call d # rest \<and> map_of d k = Some (Constant v)"
    by auto
  \<comment> \<open>the residual is compiled and does not depend on the component\<close>
  have ll: "pm_logcdf pm_dist ?d lower = Inr (G_logcdf gl ?d)"
    and lu: "pm_logcdf pm_dist ?d upper = Inr (G_logcdf gu ?d)"
    using assms(4,5) by (simp_all add: pm_logcdf_def)
  from assms(13) have "\<forall>f. Some ?fixed = Some f \<longrightarrow> k' \<notin> set (dict_keys f)" by simp
  with assms(12) have "has_input ?g"
    by (simp only: has_input_cdf_error free_key_is_input)
  then have c: "aesara_function ?g = Inr (graph_eval ?g)"
    by (simp add: aesara_function_def)
  have call: "filter is_solver_call (new_events s s') =
           [Least_squares_call (graph_eval ?g) (dict_values ?ig)
              (case pm_gradient E ?g of Inl e \<Rightarrow> Jac_str ''2-point'' | Inr g \<Rightarrow> Jac_fn g)]"
    using solver_called_once [OF assms(1-3) _ _ _ assms(6), of "G_logcdf gl ?d" "G_logcdf gu ?d"]
      ll lu c by simp
  have "graph_eval ?g (x[i := w]) = graph_eval ?g x" if "length x = length ?ig" for x w
    using residual_value [of x ?ig gu "Some ?fixed" gl mass]
      residual_value [of "x[i := w]" ?ig gu "Some ?fixed" gl mass] that
      assignment_update_fixed [OF assms(10), of ?fixed x w] kin assms(11)
    by simp
  with call have B: "\<exists>residual x0 j.
            filter is_solver_call (new_events s s') = [Least_squares_call residual x0 j] \<and>
            (\<forall>x w. length x = length ?ig \<longrightarrow> residual (x[i := w]) = residual x)"
    by blast
  \<comment> \<open>the returned map holds the fixed value\<close>
  have C: "map_of (heap s' a) k = Some v" if "r = Inr a" for a
  proof -
    from result_dict_fixed [OF _ assms(7)] assms(6) that
    obtain d where "heap s' a = dict_update d ?fixed" by blast
    then show ?thesis
      using upds_entry [OF _ assms(9), of "map_of d"] assms(8)
      by (simp add: map_of_dict_update dict_keys_def dict_values_def)
  qed
  from A B C show ?thesis by blast
qed

theorem fixed_value_wins_witness:
  "(0.01 :: real) < 1 / 2 \<and> (1 / 2 :: real) < 0.99 \<and> ndims_params ex_uniform = [0, 0] \<and>
   logcdf ex_uniform 1 = Inr (ex_uniform_logcdf 1) \<and>
   logcdf ex_uniform 2 = Inr (ex_uniform_logcdf 2) \<and>
   heap ex_state 0 = [(''lower'', 0), (''upper'', 3)] \<and>
   heap ex_state 1 = [(''upper'', 5 / 2)] \<and> 1 < next_addr ex_state \<and>
   (\<exists>d rest. new_events ex_state (snd run_fixed) = Dist_call d # rest \<and>
              map_of d ''upper'' = Some (Constant (5 / 2))) \<and>
   (\<exists>residual x0 j.
      filter is_solver_call (new_events ex_state (snd run_fixed)) =
        [Least_squares_call residual x0 j] \<and>
      residual [1 / 2, 7 / 2] = residual [1 / 2, 0]) \<and>
   fst run_fixed = Inr 2 \<and>
   map_of (heap (snd run_fixed) 2) ''upper'' = Some (5 / 2)"
proof -
  have m: "(0.01 :: real) < 1 / 2" "(1 / 2 :: real) < 0.99" by simp_all
  have n: "\<forall>n \<in> set (ndims_params ex_uniform). n = 0" by (simp add: ex_uniform_def)
  have gl: "logcdf ex_uniform 1 = Inr (ex_uniform_logcdf 1)"
    and gu: "logcdf ex_uniform 2 = Inr (ex_uniform_logcdf 2)"
    by (simp_all add: ex_uniform_def)
  have h: "heap ex_state 0 = [(''lower'', 0), (''upper'', 3)]"
    "heap ex_state 1 = [(''upper'', 5 / 2)]" "1 < next_addr ex_state"
    by (simp_all add: ex_state_def)
  have r: "fst run_fixed = Inr 2" by (simp add: run_fixed_eval)
  have run: "find_optim_prior (ex_env [1 / 2, 7 / 2] True) ex_uniform 1 2 0 (1 / 2) (Some 1)
               ex_state = (fst run_fixed, snd run_fixed)"
    by (simp add: run_fixed_def)
  have d1: "distinct (dict_keys (heap ex_state 1))" by (simp add: ex_state_def dict_keys_def)
  have kv: "(''upper'', 5 / 2) \<in> set (heap ex_state 1)" by (simp add: ex_state_def)
  have i: "(1 :: nat) < length (heap ex_state 0)" by (simp add: ex_state_def)
  have k: "dict_keys (heap ex_state 0) ! 1 = ''upper''" by (simp add: ex_state_def dict_keys_def)
  have f1: "''lower'' \<in> set (dict_keys (heap ex_state 0))"
    by (simp add: ex_state_def dict_keys_def)
  have f2: "''lower'' \<notin> set (dict_keys (heap ex_state 1))"
    by (simp add: ex_state_def dict_keys_def)
  from fixed_value_wins [OF m n gl gu run h(3) d1 kv i k f1 f2]
  have A: "\<exists>d rest. new_events ex_state (snd run_fixed) = Dist_call d # rest \<and>
                    map_of d ''upper'' = Some (Constant (5 / 2))"
    and B: "\<exists>residual x0 j.
              filter is_solver_call (new_events ex_state (snd run_fixed)) =
                [Least_squares_call residual x0 j] \<and>
              (\<forall>x w. length x = length (heap ex_state 0) \<longrightarrow> residual (x[1 := w]) = residual x)"
    and C: "\<forall>a. fst run_fixed = Inr a \<longrightarrow> map_of (heap (snd run_fixed) a) ''upper'' = Some (5 / 2)"
    by blast+
  from B obtain residual x0 j where
    c: "filter is_solver_call (new_events ex_state (snd run_fixed)) =
          [Least_squares_call residual x0 j]"
    and inv: "\<And>x w. length x = length (heap ex_state 0) \<Longrightarrow> residual (x[1 := w]) = residual x"
    by blast
  from inv [of "[1 / 2, 7 / 2]" 0] have "residual [1 / 2, 7 / 2] = residual [1 / 2, 0]"
    by (simp add: h)
  with c have B': "\<exists>residual x0 j.
      filter is_solver_call (new_events ex_state (snd run_fixed)) =
        [Least_squares_call residual x0 j] \<and>
      residual [1 / 2, 7 / 2] = residual [1 / 2, 0]"
    by blast
  from C r have C': "map_of (heap (snd run_fixed) 2) ''upper'' = Some (5 / 2)" by simp
  from m gl gu h A B' r C' show ?thesis by (simp add: ex_uniform_def)
qed

section \<open>The caller's dictionaries\<close>

text \<open>C10. Whatever the outcome of a call, every dictionary that existed when it
  started is unchanged when it ends, in particular \<open>init_guess\<close> and \<open>fixed_params\<close>;
  a returned map is a new object, at the first address that was free.\<close>

theorem arguments_not_mutated:
  assumes "find_optim_prior E pm_dist lower upper init_guess mass fixed_params s = (r, s')"
    and "init_guess < next_addr s"
    and "\<forall>fp. fixed_params = Some fp \<longrightarrow> fp < next_addr s"
  shows "heap s' init_guess = heap s init_guess \<and>
         (\<forall>fp. fixed_params = Some fp \<longrightarrow> heap s' fp = heap s fp) \<and>
         (\<forall>a < next_addr s. heap s' a = heap s a) \<and>
         (\<forall>a. r = Inr a \<longrightarrow> a = next_addr s \<and> a \<noteq> init_guess \<and> fixed_params \<noteq> Some a)"
  using assms
  by (auto simp: path_simps
      split: if_splits sum.splits option.splits prod.splits)

theorem arguments_not_mutated_witness:
  "(0 :: nat) < next_addr ex_state \<and> 1 < next_addr ex_state \<and>
   fst run_fixed = Inr 2 \<and>
   heap (snd run_fixed) 0 = [(''lower'', 0), (''upper'', 3)] \<and>
   heap ex_state 0 = [(''lower'', 0), (''upper'', 3)] \<and>
   heap (snd run_fixed) 1 = [(''upper'', 5 / 2)] \<and>
   heap ex_state 1 = [(''upper'', 5 / 2)] \<and>
   heap (snd run_failed) 0 = heap ex_state 0"
proof -
  have h: "heap ex_state 0 = [(''lower'', 0), (''upper'', 3)]"
    "heap ex_state 1 = [(''upper'', 5 / 2)]" "0 < next_addr ex_state" "1 < next_addr ex_state"
    by (simp_all add: ex_state_def)
  have r: "fst run_fixed = Inr 2" by (simp add: run_fixed_eval)
  have run: "find_optim_prior (ex_env [1 / 2, 7 / 2] True) ex_uniform 1 2 0 (1 / 2) (Some 1)
               ex_state = (fst run_fixed, snd run_fixed)"
    by (simp add: run_fixed_def)
  have v: "\<forall>fp. Some 1 = Some fp \<longrightarrow> fp < next_addr ex_state" by (simp add: ex_state_def)
  have run2: "find_optim_prior (ex_env [0, 3] False) ex_uniform 1 2 0 (1 / 2) None ex_state
                = (fst run_failed, snd run_failed)"
    by (simp add: run_failed_def)
  have v2: "\<forall>fp. None = Some fp \<longrightarrow> fp < next_addr ex_state" by simp
  from arguments_not_mutated [OF run h(3) v]
  have "heap (snd run_fixed) 0 = heap ex_state 0 \<and> heap (snd run_fixed) 1 = heap ex_state 1"
    by simp
  moreover from arguments_not_mutated [OF run2 h(3) v2]
  have "heap (snd run_failed) 0 = heap ex_state 0" by simp
  ultimately show ?thesis using h r by simp
qed


end
